theory Spec2Isabelle
  imports Complex_Main "HOL-Library.Log_Nat"
begin

section \<open>Python floats\<close>

text \<open>
  The converter computes on Python \<^verbatim>\<open>float\<close> values, which are IEEE 754 binary64
  numbers. A finite value is kept as the rational number it denotes; the zero with the
  sign bit set, the two infinities and NaN are separate values. \<open>Finite 0\<close> is the
  positive zero.
\<close>

datatype double = Finite rat | NegZero | PosInf | NegInf | NaN

text \<open>
  \<open>ilog2 x\<close> is the binary exponent of a non-zero rational: the integer \<open>k\<close> with
  \<open>2 ^ k \<le> \<bar>x\<bar> < 2 ^ (k + 1)\<close>. It is computed from the bit lengths of numerator and
  denominator, which differ from \<open>k\<close> by at most one.
\<close>

definition ilog2 :: "rat \<Rightarrow> int" where
  "ilog2 x =
     (let a = \<bar>x\<bar>;
          d = bitlen (fst (quotient_of a)) - bitlen (snd (quotient_of a))
      in if 2 powi d \<le> a then d else d - 1)"

text \<open>
  The exponent of the unit in the last place: 53 significant bits in the normal range,
  the fixed spacing \<open>2 ^ - 1074\<close> in the subnormal range.
\<close>

definition ulp_exp :: "rat \<Rightarrow> int" where
  "ulp_exp x = max (ilog2 x - 52) (- 1074)"

definition round_half_even :: "rat \<Rightarrow> int" where
  "round_half_even q =
     (let f = \<lfloor>q\<rfloor>; r = q - of_int f
      in if r < 1 / 2 then f
         else if 1 / 2 < r then f + 1
         else if even f then f else f + 1)"

text \<open>
  Rounding to nearest, ties to even, as every float operation and every conversion to
  float of CPython does: \<open>round_value x\<close> is the multiple of the unit in the last place
  nearest to \<open>x\<close>. A result whose exponent passes 1023 overflows to an infinity; a
  non-zero value that rounds to zero keeps its sign.
\<close>

definition round_value :: "rat \<Rightarrow> rat" where
  "round_value x = of_int (round_half_even (x / 2 powi ulp_exp x)) * 2 powi ulp_exp x"

definition round_to_double :: "rat \<Rightarrow> double" where
  "round_to_double x =
     (if x = 0 then Finite 0
      else
        let y = round_value x
        in if y \<noteq> 0 \<and> 1024 \<le> ilog2 y then (if 0 < x then PosInf else NegInf)
           else if y = 0 then (if x < 0 then NegZero else Finite 0)
           else Finite y)"

text \<open>The rationals that are values of a binary64 number.\<close>

definition representable :: "rat \<Rightarrow> bool" where
  "representable x \<longleftrightarrow>
     x = 0 \<or> (ilog2 x < 1024 \<and> of_int \<lfloor>x / 2 powi ulp_exp x\<rfloor> = x / 2 powi ulp_exp x)"

fun is_double :: "double \<Rightarrow> bool" where
  "is_double (Finite q) = representable q"
| "is_double NegZero = True"
| "is_double PosInf = True"
| "is_double NegInf = True"
| "is_double NaN = True"

fun is_nan :: "double \<Rightarrow> bool" where
  "is_nan NaN = True"
| "is_nan (Finite q) = False"
| "is_nan NegZero = False"
| "is_nan PosInf = False"
| "is_nan NegInf = False"

fun is_inf :: "double \<Rightarrow> bool" where
  "is_inf PosInf = True"
| "is_inf NegInf = True"
| "is_inf (Finite q) = False"
| "is_inf NegZero = False"
| "is_inf NaN = False"

fun is_zero :: "double \<Rightarrow> bool" where
  "is_zero (Finite q) = (q = 0)"
| "is_zero NegZero = True"
| "is_zero PosInf = False"
| "is_zero NegInf = False"
| "is_zero NaN = False"

fun is_finite :: "double \<Rightarrow> bool" where
  "is_finite (Finite q) = True"
| "is_finite NegZero = True"
| "is_finite PosInf = False"
| "is_finite NegInf = False"
| "is_finite NaN = False"

fun sign_bit :: "double \<Rightarrow> bool" where
  "sign_bit (Finite q) = (q < 0)"
| "sign_bit NegZero = True"
| "sign_bit PosInf = False"
| "sign_bit NegInf = True"
| "sign_bit NaN = False"

text \<open>The number a finite float denotes (both zeros denote 0).\<close>

fun value_of :: "double \<Rightarrow> rat" where
  "value_of (Finite q) = q"
| "value_of NegZero = 0"
| "value_of PosInf = 0"
| "value_of NegInf = 0"
| "value_of NaN = 0"

definition signed_zero :: "bool \<Rightarrow> double" where
  "signed_zero negative = (if negative then NegZero else Finite 0)"

definition signed_inf :: "bool \<Rightarrow> double" where
  "signed_inf negative = (if negative then NegInf else PosInf)"

text \<open>
  An \<^verbatim>\<open>int\<close> operand of a float operation is converted to float first (the literals
  \<^verbatim>\<open>9\<close>, \<^verbatim>\<open>5\<close>, \<^verbatim>\<open>32\<close>, \<^verbatim>\<open>1000\<close>, \<^verbatim>\<open>1832\<close> of the source); a decimal
  literal such as \<^verbatim>\<open>273.15\<close> is the float nearest to it.
\<close>

definition float_of_int :: "int \<Rightarrow> double" where
  "float_of_int n = round_to_double (of_int n)"

definition float_literal :: "rat \<Rightarrow> double" where
  "float_literal x = round_to_double x"

fun py_neg :: "double \<Rightarrow> double" where
  "py_neg (Finite q) = (if q = 0 then NegZero else Finite (- q))"
| "py_neg NegZero = Finite 0"
| "py_neg PosInf = NegInf"
| "py_neg NegInf = PosInf"
| "py_neg NaN = NaN"

definition py_mul :: "double \<Rightarrow> double \<Rightarrow> double" where
  "py_mul a b =
     (if is_nan a \<or> is_nan b then NaN
      else if (is_inf a \<and> is_zero b) \<or> (is_zero a \<and> is_inf b) then NaN
      else if is_inf a \<or> is_inf b then signed_inf (sign_bit a \<noteq> sign_bit b)
      else if is_zero a \<or> is_zero b then signed_zero (sign_bit a \<noteq> sign_bit b)
      else round_to_double (value_of a * value_of b))"

text \<open>IEEE division by a non-zero divisor.\<close>

definition ieee_div :: "double \<Rightarrow> double \<Rightarrow> double" where
  "ieee_div a b =
     (if is_nan a \<or> is_nan b then NaN
      else if is_inf a \<and> is_inf b then NaN
      else if is_inf a then signed_inf (sign_bit a \<noteq> sign_bit b)
      else if is_inf b \<or> is_zero a then signed_zero (sign_bit a \<noteq> sign_bit b)
      else round_to_double (value_of a / value_of b))"

definition py_add :: "double \<Rightarrow> double \<Rightarrow> double" where
  "py_add a b =
     (if is_nan a \<or> is_nan b then NaN
      else if is_inf a \<and> is_inf b then (if a = b then a else NaN)
      else if is_inf a then a
      else if is_inf b then b
      else if is_zero a \<and> is_zero b then signed_zero (sign_bit a \<and> sign_bit b)
      else if value_of a + value_of b = 0 then Finite 0
      else round_to_double (value_of a + value_of b))"

definition py_sub :: "double \<Rightarrow> double \<Rightarrow> double" where
  "py_sub a b = py_add a (py_neg b)"

text \<open>Comparisons: false whenever an operand is NaN; the two zeros are equal.\<close>

definition py_lt :: "double \<Rightarrow> double \<Rightarrow> bool" where
  "py_lt a b \<longleftrightarrow>
     \<not> is_nan a \<and> \<not> is_nan b \<and> a \<noteq> PosInf \<and> b \<noteq> NegInf \<and>
     (a = NegInf \<or> b = PosInf \<or> value_of a < value_of b)"

definition py_gt :: "double \<Rightarrow> double \<Rightarrow> bool" where
  "py_gt a b \<longleftrightarrow> py_lt b a"

definition py_eq :: "double \<Rightarrow> double \<Rightarrow> bool" where
  "py_eq a b \<longleftrightarrow>
     \<not> is_nan a \<and> \<not> is_nan b \<and> (a = b \<or> (is_finite a \<and> is_finite b \<and> value_of a = value_of b))"

section \<open>Exceptions\<close>

text \<open>
  \<open>TemperatureConversionError scale temp\<close> stands for the exception whose message is
  \<^verbatim>\<open>f"Invalid {scale} temperature: {temp}"\<close>: it carries the name of the scale and the
  offending value.
\<close>

datatype exn =
    TemperatureConversionError string double
  | ValueError
  | ZeroDivisionError
  | EOFError
  | KeyboardInterrupt
  | SystemExit int

text \<open>Python's \<^verbatim>\<open>/\<close> on floats raises when the divisor is zero.\<close>

definition py_truediv :: "double \<Rightarrow> double \<Rightarrow> exn + double" where
  "py_truediv a b = (if is_zero b then Inl ZeroDivisionError else Inr (ieee_div a b))"

section \<open>The converter\<close>

text \<open>
  \<^verbatim>\<open>return (celsius * 9/5) + 32\<close>
\<close>

definition celsius_to_fahrenheit :: "double \<Rightarrow> exn + double" where
  "celsius_to_fahrenheit celsius =
     (case py_truediv (py_mul celsius (float_of_int 9)) (float_of_int 5) of
        Inl e \<Rightarrow> Inl e
      | Inr q \<Rightarrow> Inr (py_add q (float_of_int 32)))"

text \<open>
  \<^verbatim>\<open>return (fahrenheit - 32) * 5/9\<close>
\<close>

definition fahrenheit_to_celsius :: "double \<Rightarrow> exn + double" where
  "fahrenheit_to_celsius fahrenheit =
     py_truediv (py_mul (py_sub fahrenheit (float_of_int 32)) (float_of_int 5)) (float_of_int 9)"

text \<open>
  \<^verbatim>\<open>
  if scale == 'C' and (temp < -273.15 or temp > 1000):
      raise TemperatureConversionError(f"Invalid Celsius temperature: {temp}")
  elif scale == 'F' and (temp < -459.67 or temp > 1832):
      raise TemperatureConversionError(f"Invalid Fahrenheit temperature: {temp}")
  \<close>
  Falling off the end returns \<^verbatim>\<open>None\<close>.
\<close>

definition validate_temperature :: "double \<Rightarrow> string \<Rightarrow> exn + unit" where
  "validate_temperature temp scale =
     (if scale = ''C'' \<and>
         (py_lt temp (py_neg (float_literal (27315 / 100))) \<or> py_gt temp (float_of_int 1000))
      then Inl (TemperatureConversionError ''Celsius'' temp)
      else if scale = ''F'' \<and>
         (py_lt temp (py_neg (float_literal (45967 / 100))) \<or> py_gt temp (float_of_int 1832))
      then Inl (TemperatureConversionError ''Fahrenheit'' temp)
      else Inr ())"

text \<open>
  What "the value lies below \<open>lo\<close> or above \<open>hi\<close>" means for a float: the comparison
  of the number it denotes; an infinity lies outside every bounded range, and NaN is
  neither below nor above anything.
\<close>

fun outside_range :: "rat \<Rightarrow> rat \<Rightarrow> double \<Rightarrow> bool" where
  "outside_range lo hi (Finite q) = (q < lo \<or> hi < q)"
| "outside_range lo hi NegZero = (0 < lo \<or> hi < 0)"
| "outside_range lo hi PosInf = True"
| "outside_range lo hi NegInf = True"
| "outside_range lo hi NaN = False"

section \<open>Reading and printing numbers\<close>

text \<open>
  The builtins the shell calls on console lines, for ASCII input: \<^verbatim>\<open>str.strip\<close>,
  \<^verbatim>\<open>int\<close>, \<^verbatim>\<open>float\<close> and the format \<^verbatim>\<open>.2f\<close>. \<^verbatim>\<open>int\<close> and \<^verbatim>\<open>float\<close> accept an
  optional sign and digits with single underscores between them; \<^verbatim>\<open>float\<close> also a
  fraction, an exponent, and the words \<^verbatim>\<open>inf\<close>, \<^verbatim>\<open>infinity\<close> and \<^verbatim>\<open>nan\<close> in any
  case. Both raise \<^verbatim>\<open>ValueError\<close> on anything else. (Digits and spaces outside ASCII,
  which Python accepts too, and the length limit of \<^verbatim>\<open>int\<close> are outside the model.)
\<close>

definition is_space :: "char \<Rightarrow> bool" where
  "is_space c \<longleftrightarrow> (of_char c :: int) \<in> {9, 10, 11, 12, 13, 28, 29, 30, 31, 32}"

definition py_strip :: "string \<Rightarrow> string" where
  "py_strip s = rev (dropWhile is_space (rev (dropWhile is_space s)))"

definition is_digit :: "char \<Rightarrow> bool" where
  "is_digit c \<longleftrightarrow> 48 \<le> (of_char c :: int) \<and> (of_char c :: int) \<le> 57"

definition digit_value :: "char \<Rightarrow> int" where
  "digit_value c = of_char c - 48"

fun digitpart_ok :: "string \<Rightarrow> bool" where
  "digitpart_ok [] = False"
| "digitpart_ok [c] = is_digit c"
| "digitpart_ok (c # d # cs) =
     (is_digit c \<and> (if d = CHR ''_'' then digitpart_ok cs else digitpart_ok (d # cs)))"

definition digits_value :: "string \<Rightarrow> int" where
  "digits_value s = fold (\<lambda>c n. if is_digit c then 10 * n + digit_value c else n) s 0"

fun split_sign :: "string \<Rightarrow> bool \<times> string" where
  "split_sign [] = (False, [])"
| "split_sign (c # cs) =
     (if c = CHR ''-'' then (True, cs) else if c = CHR ''+'' then (False, cs) else (False, c # cs))"

definition py_int :: "string \<Rightarrow> exn + int" where
  "py_int s =
     (let (negative, body) = split_sign (py_strip s)
      in if digitpart_ok body
         then Inr (if negative then - digits_value body else digits_value body)
         else Inl ValueError)"

definition to_lower :: "char \<Rightarrow> char" where
  "to_lower c =
     (if 65 \<le> (of_char c :: int) \<and> (of_char c :: int) \<le> 90 then char_of (of_char c + 32 :: int) else c)"

definition split_at :: "char list \<Rightarrow> string \<Rightarrow> string \<times> string option" where
  "split_at seps s =
     (takeWhile (\<lambda>c. c \<notin> set seps) s,
      case dropWhile (\<lambda>c. c \<notin> set seps) s of [] \<Rightarrow> None | c # rest \<Rightarrow> Some rest)"

text \<open>
  The value of \<^verbatim>\<open>[digits][.digits][e[sign]digits]\<close>, with at least one digit before the
  exponent; \<open>None\<close> when the text is not of this form.
\<close>

definition decimal_value :: "string \<Rightarrow> rat option" where
  "decimal_value body =
     (let (mantissa, exponent) = split_at ''eE'' body;
          (ip, fp) = split_at ''.'' mantissa;
          frac = (case fp of None \<Rightarrow> [] | Some f \<Rightarrow> f);
          mantissa_ok =
            (case fp of
               None \<Rightarrow> digitpart_ok ip
             | Some f \<Rightarrow> (digitpart_ok ip \<and> f = []) \<or> ((ip = [] \<or> digitpart_ok ip) \<and> digitpart_ok f));
          (eneg, edigits) = (case exponent of None \<Rightarrow> (False, ''0'') | Some e \<Rightarrow> split_sign e);
          e10 = (if eneg then - digits_value edigits else digits_value edigits)
      in if mantissa_ok \<and> digitpart_ok edigits
         then Some (of_int (digits_value (ip @ frac)) * 10 powi (e10 - int (length (filter is_digit frac))))
         else None)"

definition py_float :: "string \<Rightarrow> exn + double" where
  "py_float s =
     (let (negative, body) = split_sign (py_strip s);
          low = map to_lower body
      in if low = ''inf'' \<or> low = ''infinity'' then Inr (signed_inf negative)
         else if low = ''nan'' then Inr NaN
         else case decimal_value body of
                None \<Rightarrow> Inl ValueError
              | Some x \<Rightarrow>
                  Inr (if x = 0 then signed_zero negative
                       else round_to_double (if negative then - x else x)))"

text \<open>
  \<^verbatim>\<open>f"{x:.2f}"\<close>: the decimal expansion of the float's exact value, rounded to two
  places, ties to even; the sign is that of the float, also when the digits are all zero.
\<close>

definition digit_char :: "int \<Rightarrow> char" where
  "digit_char d = char_of (48 + d)"

function dec_digits :: "int \<Rightarrow> string" where
  "dec_digits n = (if n < 10 then [digit_char n] else dec_digits (n div 10) @ [digit_char (n mod 10)])"
  by pat_completeness auto
termination
  by (relation "measure nat") auto

declare dec_digits.simps [simp del]

definition format_2f :: "double \<Rightarrow> string" where
  "format_2f x =
     (if is_nan x then ''nan''
      else if x = PosInf then ''inf''
      else if x = NegInf then ''-inf''
      else
        let n = round_half_even (\<bar>value_of x\<bar> * 100)
        in (if sign_bit x then ''-'' else []) @ dec_digits (n div 100) @ ''.'' @
           [digit_char (n mod 100 div 10), digit_char (n mod 10)])"

text \<open>The degree sign of the result lines, as the two bytes of its UTF-8 encoding.\<close>

definition degree :: string where
  "degree = [CHR 0xC2, CHR 0xB0]"

section \<open>The console\<close>

text \<open>
  The shell runs against a finite list of events. \<open>Line s\<close>: the user enters the line
  \<open>s\<close> at the pending prompt. \<open>Interrupt\<close>: the user presses Ctrl-C while \<^verbatim>\<open>input\<close>
  waits, which raises \<^verbatim>\<open>KeyboardInterrupt\<close> inside \<^verbatim>\<open>input\<close>. \<open>LoopInterrupt\<close>: Ctrl-C
  arrives while the loop of \<open>run\<close> executes outside the two readers; it is delivered when
  the menu is displayed (and at the prompt, should a prompt be reached first). When the
  list is exhausted standard input is at its end, and \<^verbatim>\<open>input\<close> raises \<^verbatim>\<open>EOFError\<close>.
\<close>

datatype event = Line string | Interrupt | LoopInterrupt

datatype level = INFO | WARNING | ERROR | CRITICAL

text \<open>
  What the shell does to the outside, in order: \<open>Print s\<close> is \<^verbatim>\<open>print(s)\<close>, \<open>Prompt s\<close>
  the prompt that \<^verbatim>\<open>input(s)\<close> writes, \<open>Log l s\<close> a call of the logger at level \<open>l\<close>.
  \<open>PrintExn s e\<close> and \<open>LogExn l s e\<close> stand for the f-string \<^verbatim>\<open>f"{s}{e}"\<close> with the
  exception \<open>e\<close>, and \<open>LogConverted a x b y\<close> for
  \<^verbatim>\<open>logger.info(f"Converted {a}<degree>{x} to {b}<degree>{y}")\<close>: these texts embed
  \<^verbatim>\<open>repr\<close> of a float, which is not modelled, so the effect keeps the values.
\<close>

datatype effect =
    Print string
  | PrintExn string exn
  | Prompt string
  | Log level string
  | LogExn level string exn
  | LogConverted double string double string

record world =
  pending :: "event list"
  console :: "effect list"

definition emit :: "effect list \<Rightarrow> world \<Rightarrow> world" where
  "emit outs w = w\<lparr>console := console w @ outs\<rparr>"

text \<open>\<^verbatim>\<open>input(prompt)\<close>\<close>

definition py_input :: "string \<Rightarrow> world \<Rightarrow> (exn + string) \<times> world" where
  "py_input prompt w =
     (case pending w of
        [] \<Rightarrow> (Inl EOFError, emit [Prompt prompt] w)
      | Line s # rest \<Rightarrow> (Inr s, emit [Prompt prompt] (w\<lparr>pending := rest\<rparr>))
      | Interrupt # rest \<Rightarrow> (Inl KeyboardInterrupt, emit [Prompt prompt] (w\<lparr>pending := rest\<rparr>))
      | LoopInterrupt # rest \<Rightarrow>
          (Inl KeyboardInterrupt, emit [Prompt prompt] (w\<lparr>pending := rest\<rparr>)))"

text \<open>
  \<^verbatim>\<open>except Exception\<close> catches every exception of the model but \<^verbatim>\<open>KeyboardInterrupt\<close>
  and \<^verbatim>\<open>SystemExit\<close>.
\<close>

fun is_Exception :: "exn \<Rightarrow> bool" where
  "is_Exception (TemperatureConversionError scale temp) = True"
| "is_Exception ValueError = True"
| "is_Exception ZeroDivisionError = True"
| "is_Exception EOFError = True"
| "is_Exception KeyboardInterrupt = False"
| "is_Exception (SystemExit status) = False"

fun is_TemperatureConversionError :: "exn \<Rightarrow> bool" where
  "is_TemperatureConversionError (TemperatureConversionError scale temp) = True"
| "is_TemperatureConversionError ValueError = False"
| "is_TemperatureConversionError ZeroDivisionError = False"
| "is_TemperatureConversionError EOFError = False"
| "is_TemperatureConversionError KeyboardInterrupt = False"
| "is_TemperatureConversionError (SystemExit status) = False"

section \<open>The interactive shell\<close>

text \<open>The four \<^verbatim>\<open>print\<close> calls of \<open>display_menu\<close>; the first text starts with a newline.\<close>

definition menu_lines :: "effect list" where
  "menu_lines =
     [Print (CHR 0x0A # ''--- Temperature Converter ---''),
      Print ''1. Celsius to Fahrenheit'',
      Print ''2. Fahrenheit to Celsius'',
      Print ''3. Exit'']"

definition display_menu :: "world \<Rightarrow> (exn + unit) \<times> world" where
  "display_menu w =
     (case pending w of
        LoopInterrupt # rest \<Rightarrow> (Inl KeyboardInterrupt, w\<lparr>pending := rest\<rparr>)
      | _ \<Rightarrow> (Inr (), emit menu_lines w))"

text \<open>
  \<open>get_valid_numeric_input\<close>. The body of the \<^verbatim>\<open>try\<close>,
  \<^verbatim>\<open>value = float(input(prompt).strip()); return value\<close>, is \<open>float_attempt\<close>; the loop
  is the recursion. It ends because every retry has consumed a line.
\<close>

definition float_attempt :: "string \<Rightarrow> world \<Rightarrow> (exn + double) \<times> world" where
  "float_attempt prompt w =
     (case py_input prompt w of
        (Inl e, w1) \<Rightarrow> (Inl e, w1)
      | (Inr s, w1) \<Rightarrow>
          (case py_float (py_strip s) of
             Inl e \<Rightarrow> (Inl e, w1)
           | Inr v \<Rightarrow> (Inr v, w1)))"

lemma float_attempt_ValueError:
  "float_attempt prompt w = (Inl ValueError, w1) \<Longrightarrow> length (pending w1) < length (pending w)"
  by (auto simp: float_attempt_def py_input_def emit_def
      split: list.splits event.splits sum.splits)

function get_valid_numeric_input :: "string \<Rightarrow> world \<Rightarrow> (exn + double) \<times> world" where
  "get_valid_numeric_input prompt w =
     (case float_attempt prompt w of
        (Inr v, w1) \<Rightarrow> (Inr v, w1)
      | (Inl e, w1) \<Rightarrow>
          if e = ValueError
          then get_valid_numeric_input prompt
                 (emit [Print ''Error: Please enter a valid number.''] w1)
          else if e = KeyboardInterrupt
          then (Inl (SystemExit 1),
                emit [Log WARNING ''Input interrupted by user'',
                      Print (CHR 0x0A # ''Operation cancelled.'')] w1)
          else (Inl e, w1))"
  by pat_completeness auto
termination
  by (relation "measure (\<lambda>(prompt, w). length (pending w))")
    (auto simp: emit_def dest: float_attempt_ValueError [OF sym])

text \<open>
  \<open>get_valid_menu_choice\<close>. The body of the \<^verbatim>\<open>try\<close> is \<open>menu_attempt\<close>: \<open>Some choice\<close>
  when it returns, \<open>None\<close> when it falls through after \<^verbatim>\<open>Invalid choice\<close>.
\<close>

definition menu_attempt :: "world \<Rightarrow> (exn + int option) \<times> world" where
  "menu_attempt w =
     (case py_input ''Enter your choice (1-3): '' w of
        (Inl e, w1) \<Rightarrow> (Inl e, w1)
      | (Inr s, w1) \<Rightarrow>
          (case py_int (py_strip s) of
             Inl e \<Rightarrow> (Inl e, w1)
           | Inr choice \<Rightarrow>
               if 1 \<le> choice \<and> choice \<le> 3 then (Inr (Some choice), w1)
               else (Inr None, emit [Print ''Invalid choice. Please select 1, 2, or 3.''] w1)))"

lemma menu_attempt_ValueError:
  "menu_attempt w = (Inl ValueError, w1) \<Longrightarrow> length (pending w1) < length (pending w)"
  by (auto simp: menu_attempt_def py_input_def emit_def
      split: list.splits event.splits sum.splits if_splits)

lemma menu_attempt_None:
  "menu_attempt w = (Inr None, w1) \<Longrightarrow> length (pending w1) < length (pending w)"
  by (auto simp: menu_attempt_def py_input_def emit_def
      split: list.splits event.splits sum.splits if_splits)

function get_valid_menu_choice :: "world \<Rightarrow> (exn + int) \<times> world" where
  "get_valid_menu_choice w =
     (case menu_attempt w of
        (Inr (Some choice), w1) \<Rightarrow> (Inr choice, w1)
      | (Inr None, w1) \<Rightarrow> get_valid_menu_choice w1
      | (Inl e, w1) \<Rightarrow>
          if e = ValueError
          then get_valid_menu_choice
                 (emit [Print ''Error: Please enter a number between 1 and 3.''] w1)
          else if e = KeyboardInterrupt
          then (Inl (SystemExit 1),
                emit [Log WARNING ''Menu selection interrupted'',
                      Print (CHR 0x0A # ''Operation cancelled.'')] w1)
          else (Inl e, w1))"
  by pat_completeness auto
termination
  by (relation "measure (\<lambda>w. length (pending w))")
    (auto simp: emit_def dest: menu_attempt_ValueError [OF sym] menu_attempt_None [OF sym])

declare get_valid_numeric_input.simps [simp del]
declare get_valid_menu_choice.simps [simp del]

text \<open>
  The inner \<^verbatim>\<open>try\<close> of \<open>run\<close>: \<open>convert\<close> is its body, \<open>handle_conversion\<close> its two
  \<^verbatim>\<open>except\<close> clauses.
\<close>

definition convert :: "int \<Rightarrow> world \<Rightarrow> (exn + unit) \<times> world" where
  "convert choice w =
     (if choice = 1 then
        (case get_valid_numeric_input ''Enter temperature in Celsius: '' w of
           (Inl e, w1) \<Rightarrow> (Inl e, w1)
         | (Inr celsius, w1) \<Rightarrow>
             (case validate_temperature celsius ''C'' of
                Inl e \<Rightarrow> (Inl e, w1)
              | Inr ok \<Rightarrow>
                  (case celsius_to_fahrenheit celsius of
                     Inl e \<Rightarrow> (Inl e, w1)
                   | Inr fahrenheit \<Rightarrow>
                       (Inr (),
                        emit [Print (format_2f celsius @ degree @ ''C = '' @
                                     format_2f fahrenheit @ degree @ ''F''),
                              LogConverted celsius ''C'' fahrenheit ''F''] w1))))
      else if choice = 2 then
        (case get_valid_numeric_input ''Enter temperature in Fahrenheit: '' w of
           (Inl e, w1) \<Rightarrow> (Inl e, w1)
         | (Inr fahrenheit, w1) \<Rightarrow>
             (case validate_temperature fahrenheit ''F'' of
                Inl e \<Rightarrow> (Inl e, w1)
              | Inr ok \<Rightarrow>
                  (case fahrenheit_to_celsius fahrenheit of
                     Inl e \<Rightarrow> (Inl e, w1)
                   | Inr celsius \<Rightarrow>
                       (Inr (),
                        emit [Print (format_2f fahrenheit @ degree @ ''F = '' @
                                     format_2f celsius @ degree @ ''C''),
                              LogConverted fahrenheit ''F'' celsius ''C''] w1))))
      else (Inr (), w))"

definition handle_conversion :: "(exn + unit) \<times> world \<Rightarrow> (exn + unit) \<times> world" where
  "handle_conversion r =
     (case r of
        (Inr ok, w) \<Rightarrow> (Inr ok, w)
      | (Inl e, w) \<Rightarrow>
          if is_TemperatureConversionError e
          then (Inr (),
                emit [PrintExn ''Conversion Error: '' e,
                      LogExn ERROR ''Temperature conversion error: '' e] w)
          else if is_Exception e
          then (Inr (),
                emit [PrintExn ''An unexpected error occurred: '' e,
                      LogExn ERROR ''Unexpected error: '' e] w)
          else (Inl e, w))"

text \<open>No step adds pending events, and a menu choice consumes one: the loop of \<open>run\<close> ends.\<close>

lemma py_input_pending:
  "py_input prompt w = (r, w1) \<Longrightarrow> length (pending w1) \<le> length (pending w)"
  by (auto simp: py_input_def emit_def split: list.splits event.splits)

lemma py_input_pending_Inr:
  "py_input prompt w = (Inr s, w1) \<Longrightarrow> length (pending w1) < length (pending w)"
  by (auto simp: py_input_def emit_def split: list.splits event.splits)

lemma float_attempt_pending:
  "float_attempt prompt w = (r, w1) \<Longrightarrow> length (pending w1) \<le> length (pending w)"
  by (auto simp: float_attempt_def split: prod.splits sum.splits dest: py_input_pending)

lemma menu_attempt_pending:
  "menu_attempt w = (r, w1) \<Longrightarrow> length (pending w1) \<le> length (pending w)"
  by (auto simp: menu_attempt_def emit_def split: prod.splits sum.splits if_splits
      dest: py_input_pending)

lemma menu_attempt_Some:
  "menu_attempt w = (Inr (Some c), w1) \<Longrightarrow> length (pending w1) < length (pending w)"
  by (auto simp: menu_attempt_def emit_def split: prod.splits sum.splits if_splits
      dest: py_input_pending_Inr)

lemma get_valid_numeric_input_pending:
  "get_valid_numeric_input prompt w = (r, w1) \<Longrightarrow> length (pending w1) \<le> length (pending w)"
proof (induction prompt w arbitrary: r w1 rule: get_valid_numeric_input.induct)
  case (1 prompt w)
  obtain a w0 where att: "float_attempt prompt w = (a, w0)" by (cases "float_attempt prompt w")
  from att have le: "length (pending w0) \<le> length (pending w)" by (rule float_attempt_pending)
  show ?case
  proof (cases "a = Inl ValueError")
    case True
    with att "1.prems"
    have "get_valid_numeric_input prompt
            (emit [Print ''Error: Please enter a valid number.''] w0) = (r, w1)"
      by (simp add: get_valid_numeric_input.simps [of prompt w])
    with "1.IH" [OF att [symmetric, unfolded True]]
    have "length (pending w1)
            \<le> length (pending (emit [Print ''Error: Please enter a valid number.''] w0))"
      by simp
    with le show ?thesis by (simp add: emit_def)
  next
    case False
    with att "1.prems" have "pending w1 = pending w0"
      by (auto simp: get_valid_numeric_input.simps [of prompt w] emit_def
          split: sum.splits if_splits)
    with le show ?thesis by simp
  qed
qed

lemma get_valid_menu_choice_pending:
  "get_valid_menu_choice w = (r, w1) \<Longrightarrow>
     length (pending w1) \<le> length (pending w) \<and>
     (\<forall>c. r = Inr c \<longrightarrow> length (pending w1) < length (pending w))"
proof (induction w arbitrary: r w1 rule: get_valid_menu_choice.induct)
  case (1 w)
  obtain a w0 where att: "menu_attempt w = (a, w0)" by (cases "menu_attempt w")
  from att have le: "length (pending w0) \<le> length (pending w)" by (rule menu_attempt_pending)
  consider (ret) c where "a = Inr (Some c)" | (again) "a = Inr None" | (bad) "a = Inl ValueError"
    | (exc) e where "a = Inl e" "e \<noteq> ValueError"
  proof (cases a)
    case (Inl e)
    then show ?thesis by (cases "e = ValueError") (auto intro: bad exc)
  next
    case (Inr b)
    then show ?thesis by (cases b) (auto intro: ret again)
  qed
  then show ?case
  proof cases
    case ret
    with att "1.prems" have "w1 = w0" "r = Inr c"
      by (auto simp: get_valid_menu_choice.simps [of w])
    with att ret show ?thesis by (auto dest: menu_attempt_Some)
  next
    case again
    with att "1.prems" have "get_valid_menu_choice w0 = (r, w1)"
      by (simp add: get_valid_menu_choice.simps [of w])
    from "1.IH"(2) [OF att [symmetric] again refl this]
    have "length (pending w1) \<le> length (pending w0)" by simp
    moreover from att again have "length (pending w0) < length (pending w)"
      by (auto dest: menu_attempt_None)
    ultimately show ?thesis by simp
  next
    case bad
    with att "1.prems"
    have "get_valid_menu_choice
            (emit [Print ''Error: Please enter a number between 1 and 3.''] w0) = (r, w1)"
      by (simp add: get_valid_menu_choice.simps [of w])
    from "1.IH"(1) [OF att [symmetric] bad refl this]
    have "length (pending w1) \<le> length (pending w0)" by (simp add: emit_def)
    moreover from att bad have "length (pending w0) < length (pending w)"
      by (auto dest: menu_attempt_ValueError)
    ultimately show ?thesis by simp
  next
    case exc
    with att "1.prems" have "pending w1 = pending w0" "\<forall>c. r \<noteq> Inr c"
      by (auto simp: get_valid_menu_choice.simps [of w] emit_def split: if_splits)
    with le show ?thesis by simp
  qed
qed

lemma convert_pending:
  "convert choice w = (r, w1) \<Longrightarrow> length (pending w1) \<le> length (pending w)"
  by (auto simp: convert_def emit_def split: if_splits prod.splits sum.splits
      dest: get_valid_numeric_input_pending)

lemma handle_conversion_pending:
  "handle_conversion (a, w) = (r, w1) \<Longrightarrow> pending w1 = pending w"
  by (auto simp: handle_conversion_def emit_def split: sum.splits if_splits)

lemma display_menu_pending:
  "display_menu w = (r, w1) \<Longrightarrow> length (pending w1) \<le> length (pending w)"
  by (auto simp: display_menu_def emit_def split: list.splits event.splits)

text \<open>The \<^verbatim>\<open>while True\<close> loop of \<open>run\<close>, inside its outer \<^verbatim>\<open>try\<close>.\<close>

function run_loop :: "world \<Rightarrow> (exn + unit) \<times> world" where
  "run_loop w =
     (case display_menu w of
        (Inl e, w1) \<Rightarrow> (Inl e, w1)
      | (Inr shown, w1) \<Rightarrow>
          (case get_valid_menu_choice w1 of
             (Inl e, w2) \<Rightarrow> (Inl e, w2)
           | (Inr choice, w2) \<Rightarrow>
               if choice = 3
               then (Inr (),
                     emit [Print ''Thank you for using Temperature Converter. Goodbye!''] w2)
               else
                 (case handle_conversion (convert choice w2) of
                    (Inl e, w3) \<Rightarrow> (Inl e, w3)
                  | (Inr handled, w3) \<Rightarrow> run_loop w3)))"
  by pat_completeness auto
termination
proof (relation "measure (\<lambda>w. length (pending w))")
  show "wf (measure (\<lambda>w. length (pending w)))" by simp
next
  fix w w1 w2 w3 :: world and choice :: int and shown handled :: unit
    and r1 r3 :: "exn + unit" and r2 :: "exn + int"
  assume dm: "(r1, w1) = display_menu w"
    and mc: "(r2, w2) = get_valid_menu_choice w1" and r2: "r2 = Inr choice"
    and hc: "(r3, w3) = handle_conversion (convert choice w2)"
  from dm [symmetric] have "length (pending w1) \<le> length (pending w)"
    by (rule display_menu_pending)
  moreover from get_valid_menu_choice_pending [OF mc [symmetric]] r2
  have "length (pending w2) < length (pending w1)" by simp
  moreover obtain a w' where cv: "convert choice w2 = (a, w')" by (cases "convert choice w2")
  from cv have "length (pending w') \<le> length (pending w2)" by (rule convert_pending)
  moreover from hc cv have "pending w3 = pending w'"
    by (auto dest: handle_conversion_pending [OF sym])
  ultimately show "(w3, w) \<in> measure (\<lambda>w. length (pending w))" by simp
qed

declare run_loop.simps [simp del]

text \<open>\<open>run\<close>: the loop under \<^verbatim>\<open>except KeyboardInterrupt\<close>, which ends the process with status 0.\<close>

definition run :: "world \<Rightarrow> (exn + unit) \<times> world" where
  "run w =
     (case run_loop w of
        (Inl e, w1) \<Rightarrow>
          if e = KeyboardInterrupt
          then (Inl (SystemExit 0),
                emit [Print (CHR 0x0A # ''Application terminated by user.'')] w1)
          else (Inl e, w1)
      | (Inr done, w1) \<Rightarrow> (Inr done, w1))"

text \<open>
  \<open>main\<close>: \<^verbatim>\<open>app.run()\<close> under \<^verbatim>\<open>except Exception\<close>, which logs and ends the process with
  status 1. (The constructor of the application stores two fields and cannot fail.)
\<close>

definition main :: "world \<Rightarrow> (exn + unit) \<times> world" where
  "main w =
     (case run w of
        (Inl e, w1) \<Rightarrow>
          if is_Exception e
          then (Inl (SystemExit 1), emit [LogExn CRITICAL ''Critical error in application: '' e] w1)
          else (Inl e, w1)
      | (Inr done, w1) \<Rightarrow> (Inr done, w1))"

text \<open>
  The status of the process: 0 when \<open>main\<close> returns, the argument of \<^verbatim>\<open>sys.exit\<close>, 1 for
  an uncaught exception (130 for an uncaught \<^verbatim>\<open>KeyboardInterrupt\<close>).
\<close>

fun exit_status :: "exn + unit \<Rightarrow> int" where
  "exit_status (Inr done) = 0"
| "exit_status (Inl (SystemExit status)) = status"
| "exit_status (Inl KeyboardInterrupt) = 130"
| "exit_status (Inl (TemperatureConversionError scale temp)) = 1"
| "exit_status (Inl ValueError) = 1"
| "exit_status (Inl ZeroDivisionError) = 1"
| "exit_status (Inl EOFError) = 1"

text \<open>The shell starts with the events to come and an empty console.\<close>

definition start :: "event list \<Rightarrow> world" where
  "start events = \<lparr>pending = events, console = []\<rparr>"

section \<open>Notions used to state the properties\<close>

text \<open>
  What the menu prompt makes of a line: \<open>Some n\<close> when the stripped line parses as an
  integer \<open>n\<close> from 1 to 3, \<open>None\<close> otherwise; and what a rejected line leaves on the
  console: the prompt and one of the two error messages.
\<close>

definition menu_entry :: "string \<Rightarrow> int option" where
  "menu_entry s =
     (case py_int (py_strip s) of
        Inl e \<Rightarrow> None
      | Inr n \<Rightarrow> if 1 \<le> n \<and> n \<le> 3 then Some n else None)"

definition reprompt :: "string \<Rightarrow> effect list" where
  "reprompt s =
     [Prompt ''Enter your choice (1-3): '',
      Print (case py_int (py_strip s) of
               Inl e \<Rightarrow> ''Error: Please enter a number between 1 and 3.''
             | Inr n \<Rightarrow> ''Invalid choice. Please select 1, 2, or 3.'')]"

text \<open>
  The two formulas of the specification in exact arithmetic, on the rationals: what the
  float results of the converter approximate.
\<close>

definition exact_celsius_to_fahrenheit :: "rat \<Rightarrow> rat" where
  "exact_celsius_to_fahrenheit c = c * 9 / 5 + 32"

definition exact_fahrenheit_to_celsius :: "rat \<Rightarrow> rat" where
  "exact_fahrenheit_to_celsius f = (f - 32) * 5 / 9"

text \<open>The console of a world ends with the given effects.\<close>

definition ends_with :: "effect list \<Rightarrow> world \<Rightarrow> bool" where
  "ends_with last_effects w \<longleftrightarrow>
     take (length last_effects) (rev (console w)) = rev last_effects"

section \<open>Facts about the float model\<close>

lemma bitlen_lower: "0 < n \<Longrightarrow> (2::rat) powi (bitlen n - 1) \<le> of_int n"
proof -
  assume n: "0 < n"
  then have b: "1 \<le> bitlen n" by (simp add: bitlen_alt_def)
  from bitlen_bounds [OF n] have "(2::int) ^ nat (bitlen n - 1) \<le> n" by simp
  then have "(of_int ((2::int) ^ nat (bitlen n - 1)) :: rat) \<le> of_int n"
    by (simp only: of_int_le_iff)
  with b show ?thesis by (simp add: power_int_def)
qed

lemma bitlen_upper: "0 < n \<Longrightarrow> (of_int n :: rat) < 2 powi (bitlen n)"
proof -
  assume n: "0 < n"
  have b: "0 \<le> bitlen n" by (rule bitlen_nonneg)
  from bitlen_bounds [OF n] have "n < (2::int) ^ nat (bitlen n)" by simp
  then have "(of_int n :: rat) < of_int ((2::int) ^ nat (bitlen n))"
    by (simp only: of_int_less_iff)
  with b show ?thesis by (simp add: power_int_def)
qed

text \<open>\<open>ilog2\<close> is the binary exponent.\<close>

lemma ilog2_bounds:
  assumes "x \<noteq> 0"
  shows "2 powi (ilog2 x) \<le> \<bar>x\<bar>" and "\<bar>x\<bar> < 2 powi (ilog2 x + 1)"
proof -
  define a where "a = \<bar>x\<bar>"
  obtain p q where pq: "quotient_of a = (p, q)" by (cases "quotient_of a")
  have q: "0 < q" using pq by (rule quotient_of_denom_pos)
  have a: "a = of_int p / of_int q" using pq by (rule quotient_of_div)
  have "0 < a" using assms by (simp add: a_def)
  with a q have p: "0 < p" by (simp add: zero_less_divide_iff)
  define d where "d = bitlen p - bitlen q"
  have lo: "(2::rat) powi (d - 1) < a"
  proof -
    have "(2::rat) powi (d - 1) = 2 powi (bitlen p - 1) / 2 powi (bitlen q)"
      by (simp add: d_def power_int_diff)
    also have "\<dots> \<le> of_int p / 2 powi (bitlen q)"
      using bitlen_lower [OF p] by (simp add: divide_right_mono)
    also have "\<dots> < of_int p / of_int q"
      using bitlen_upper [OF q] p q by (simp add: divide_strict_left_mono)
    finally show ?thesis by (simp add: a)
  qed
  have hi: "a < (2::rat) powi (d + 1)"
  proof -
    have "a = of_int p / of_int q" by (rule a)
    also have "\<dots> < 2 powi (bitlen p) / of_int q"
      using bitlen_upper [OF p] q by (simp add: divide_strict_right_mono)
    also have "\<dots> \<le> 2 powi (bitlen p) / 2 powi (bitlen q - 1)"
      using bitlen_lower [OF q] q by (intro divide_left_mono) auto
    also have "\<dots> = 2 powi (bitlen p - (bitlen q - 1))"
      by (rule power_int_diff [symmetric]) simp
    also have "bitlen p - (bitlen q - 1) = d + 1"
      by (simp add: d_def)
    finally show ?thesis .
  qed
  have il: "ilog2 x = (if 2 powi d \<le> a then d else d - 1)"
    by (simp add: ilog2_def Let_def a_def [symmetric] pq d_def)
  show "2 powi (ilog2 x) \<le> \<bar>x\<bar>"
    using lo by (simp add: il a_def [symmetric])
  show "\<bar>x\<bar> < 2 powi (ilog2 x + 1)"
    using hi by (auto simp: il a_def [symmetric] not_le)
qed

lemma powi2_le_lessD:
  assumes "(2::rat) powi m \<le> a" and "a < 2 powi n"
  shows "m < n"
proof -
  from assms have less: "(2::rat) powi m < 2 powi n" by simp
  show ?thesis
  proof (rule ccontr)
    assume "\<not> m < n"
    then have "n \<le> m" by simp
    then have "(2::rat) powi n \<le> 2 powi m" by (rule power_int_increasing) simp
    with less show False by simp
  qed
qed

lemma ilog2_eqI:
  assumes "2 powi k \<le> \<bar>x\<bar>" and "\<bar>x\<bar> < 2 powi (k + 1)"
  shows "ilog2 x = k"
proof -
  have "(0::rat) < 2 powi k" by simp
  with assms(1) have "0 < \<bar>x\<bar>" by linarith
  then have nz: "x \<noteq> 0" by simp
  from powi2_le_lessD [OF assms(1) ilog2_bounds(2) [OF nz]] have "k < ilog2 x + 1" .
  moreover from powi2_le_lessD [OF ilog2_bounds(1) [OF nz] assms(2)] have "ilog2 x < k + 1" .
  ultimately show ?thesis by simp
qed

text \<open>The literals of the source, as floats.\<close>

lemma float_of_int_literals:
  "float_of_int 9 = Finite 9" "float_of_int 5 = Finite 5" "float_of_int 32 = Finite 32"
  "float_of_int 1000 = Finite 1000" "float_of_int 1832 = Finite 1832"
  by code_simp+

lemma celsius_lower_literal:
  "py_neg (float_literal (27315 / 100)) = Finite (- (2402652809016115 / 8796093022208))"
  by code_simp

lemma fahrenheit_lower_literal:
  "py_neg (float_literal (45967 / 100)) = Finite (- (8086600159036703 / 17592186044416))"
  by code_simp

lemma py_lt_bound:
  "py_lt temp (Finite lo) \<or> py_gt temp (Finite hi) \<longleftrightarrow> outside_range lo hi temp"
  by (cases temp) (auto simp: py_lt_def py_gt_def)

lemma py_truediv_nonzero: "q \<noteq> 0 \<Longrightarrow> py_truediv a (Finite q) = Inr (ieee_div a (Finite q))"
  by (simp add: py_truediv_def)

lemma celsius_to_fahrenheit_float:
  "celsius_to_fahrenheit c = Inr (py_add (ieee_div (py_mul c (Finite 9)) (Finite 5)) (Finite 32))"
  by (simp add: celsius_to_fahrenheit_def float_of_int_literals py_truediv_nonzero)

lemma fahrenheit_to_celsius_float:
  "fahrenheit_to_celsius f = Inr (ieee_div (py_mul (py_sub f (Finite 32)) (Finite 5)) (Finite 9))"
  by (simp add: fahrenheit_to_celsius_def float_of_int_literals py_truediv_nonzero)

lemma validate_temperature_cases:
  "validate_temperature temp ''C'' =
     (if outside_range (- (2402652809016115 / 8796093022208)) 1000 temp
      then Inl (TemperatureConversionError ''Celsius'' temp) else Inr ())"
  "validate_temperature temp ''F'' =
     (if outside_range (- (8086600159036703 / 17592186044416)) 1832 temp
      then Inl (TemperatureConversionError ''Fahrenheit'' temp) else Inr ())"
  unfolding validate_temperature_def float_of_int_literals celsius_lower_literal
    fahrenheit_lower_literal py_lt_bound
  by simp_all

section \<open>The converter: validation\<close>

text \<open>
  Claim C1. \<open>validate_temperature\<close> raises \<open>TemperatureConversionError\<close>, carrying the
  scale and the offending value, exactly when the value lies below the lower bound or
  above the upper bound of its scale, and returns silently otherwise. The bounds are the
  floats the source writes: \<^verbatim>\<open>-273.15\<close> is the float
  \<open>- 2402652809016115 / 2 ^ 43\<close> and \<^verbatim>\<open>-459.67\<close> is
  \<open>- 8086600159036703 / 2 ^ 44\<close>, the floats nearest to the decimal numbers; 1000 and
  1832 are exact. The comparisons are strict, so the four endpoints are accepted. The
  result has type \<open>exn + unit\<close>: there is no return value and no state.
\<close>

theorem validate_temperature_range:
  "validate_temperature temp ''C'' =
     (if outside_range (- (2402652809016115 / 8796093022208)) 1000 temp
      then Inl (TemperatureConversionError ''Celsius'' temp) else Inr ())
   \<and> validate_temperature temp ''F'' =
     (if outside_range (- (8086600159036703 / 17592186044416)) 1832 temp
      then Inl (TemperatureConversionError ''Fahrenheit'' temp) else Inr ())
   \<and> py_neg (float_literal (27315 / 100)) = Finite (- (2402652809016115 / 8796093022208))
   \<and> py_neg (float_literal (45967 / 100)) = Finite (- (8086600159036703 / 17592186044416))"
  by (simp only: validate_temperature_cases celsius_lower_literal fahrenheit_lower_literal
      simp_thms)

theorem validate_temperature_range_witness:
  "validate_temperature (py_neg (float_literal (27315 / 100))) ''C'' = Inr ()
   \<and> validate_temperature (Finite 1000) ''C'' = Inr ()
   \<and> validate_temperature (py_neg (float_literal (45967 / 100))) ''F'' = Inr ()
   \<and> validate_temperature (Finite 1832) ''F'' = Inr ()
   \<and> validate_temperature (Finite (- 300)) ''C'' =
       Inl (TemperatureConversionError ''Celsius'' (Finite (- 300)))
   \<and> validate_temperature (Finite (18321 / 10)) ''F'' =
       Inl (TemperatureConversionError ''Fahrenheit'' (Finite (18321 / 10)))"
  using validate_temperature_range [of "Finite (- (2402652809016115 / 8796093022208))"]
    validate_temperature_range [of "Finite (- (8086600159036703 / 17592186044416))"]
    validate_temperature_range [of "Finite 1000"]
    validate_temperature_range [of "Finite 1832"]
    validate_temperature_range [of "Finite (- 300)"]
    validate_temperature_range [of "Finite (18321 / 10)"]
  by simp

text \<open>
  Claim C10. For a scale argument other than \<^verbatim>\<open>'C'\<close> and \<^verbatim>\<open>'F'\<close> neither branch
  of \<open>validate_temperature\<close> is taken: the call returns silently, whatever the value.
\<close>

theorem validate_temperature_unknown_scale:
  assumes "scale \<noteq> ''C''" and "scale \<noteq> ''F''"
  shows "validate_temperature temp scale = Inr ()"
  using assms by (simp add: validate_temperature_def)

theorem validate_temperature_unknown_scale_witness:
  "validate_temperature PosInf ''K'' = Inr ()
   \<and> validate_temperature (Finite (- 300)) ''c'' = Inr ()
   \<and> validate_temperature (Finite 5000) ''f'' = Inr ()
   \<and> validate_temperature NegInf [] = Inr ()"
  using validate_temperature_unknown_scale [of "''K''" PosInf]
    validate_temperature_unknown_scale [of "''c''" "Finite (- 300)"]
    validate_temperature_unknown_scale [of "''f''" "Finite 5000"]
    validate_temperature_unknown_scale [of "[]" NegInf]
  by simp

section \<open>The converter: formulas\<close>

text \<open>
  Claim C2. For every float \<open>c\<close>, \<open>celsius_to_fahrenheit c\<close> is \<^verbatim>\<open>c * 9/5 + 32\<close> and
  \<open>fahrenheit_to_celsius f\<close> is \<^verbatim>\<open>(f - 32) * 5/9\<close>, evaluated left to right in float
  arithmetic as Python does; neither raises (the divisors are the non-zero literals 5 and
  9, and float multiplication, addition and subtraction never raise). At the five points
  of the specification every intermediate result is a float, so the results are exact:
  0 gives 32, 100 gives 212, -40 gives -40, and back 32 gives 0 and 212 gives 100.
\<close>

theorem conversion_formulas:
  "celsius_to_fahrenheit c = Inr (py_add (ieee_div (py_mul c (Finite 9)) (Finite 5)) (Finite 32))
   \<and> fahrenheit_to_celsius f = Inr (ieee_div (py_mul (py_sub f (Finite 32)) (Finite 5)) (Finite 9))
   \<and> celsius_to_fahrenheit (Finite 0) = Inr (Finite 32)
   \<and> celsius_to_fahrenheit (Finite 100) = Inr (Finite 212)
   \<and> celsius_to_fahrenheit (Finite (- 40)) = Inr (Finite (- 40))
   \<and> fahrenheit_to_celsius (Finite 32) = Inr (Finite 0)
   \<and> fahrenheit_to_celsius (Finite 212) = Inr (Finite 100)"
proof -
  have "celsius_to_fahrenheit (Finite 0) = Inr (Finite 32)" by code_simp
  moreover have "celsius_to_fahrenheit (Finite 100) = Inr (Finite 212)" by code_simp
  moreover have "celsius_to_fahrenheit (Finite (- 40)) = Inr (Finite (- 40))" by code_simp
  moreover have "fahrenheit_to_celsius (Finite 32) = Inr (Finite 0)" by code_simp
  moreover have "fahrenheit_to_celsius (Finite 212) = Inr (Finite 100)" by code_simp
  ultimately show ?thesis
    by (simp only: celsius_to_fahrenheit_float fahrenheit_to_celsius_float simp_thms)
qed

section \<open>Rounding error\<close>

text \<open>
  Rounding to nearest moves a number by at most half a unit in the last place: by a
  relative error of \<open>2 ^ - 53\<close> in the normal range and by \<open>2 ^ - 1075\<close> below it. A
  number of magnitude up to \<open>2 ^ 1023\<close> rounds to a finite float; one of magnitude
  \<open>2 ^ 1024\<close> or more overflows.
\<close>

lemma round_half_even_error: "\<bar>of_int (round_half_even q) - q\<bar> \<le> 1 / 2"
proof -
  define f where "f = \<lfloor>q\<rfloor>"
  define r where "r = q - of_int f"
  have r: "0 \<le> r" "r < 1" by (simp_all add: r_def f_def) linarith+
  have q: "q = of_int f + r" by (simp add: r_def)
  show ?thesis
    using r unfolding round_half_even_def Let_def f_def [symmetric] r_def [symmetric]
    by (auto simp: q)
qed

lemma round_value_error:
  assumes "x \<noteq> 0"
  shows "\<bar>round_value x - x\<bar> \<le> \<bar>x\<bar> / 2 ^ 53 + 1 / 2 ^ 1075"
proof -
  define e where "e = ulp_exp x"
  define m where "m = round_half_even (x / 2 powi e)"
  have pos: "(0::rat) < 2 powi e" by simp
  have "round_value x - x = (of_int m - x / 2 powi e) * 2 powi e"
    by (simp add: round_value_def e_def m_def algebra_simps)
  then have "\<bar>round_value x - x\<bar> = \<bar>of_int m - x / 2 powi e\<bar> * 2 powi e"
    by (simp add: abs_mult)
  also have "\<dots> \<le> (1 / 2) * 2 powi e"
    using round_half_even_error [of "x / 2 powi e"] pos
    by (intro mult_right_mono) (simp_all add: m_def)
  finally have half: "\<bar>round_value x - x\<bar> \<le> 2 powi e / 2" by simp
  show ?thesis
  proof (cases "- 1074 \<le> ilog2 x - 52")
    case True
    then have "e = ilog2 x - 52" by (simp add: e_def ulp_exp_def)
    then have "(2::rat) powi e = 2 powi (ilog2 x) / 2 ^ 52"
      by (simp add: power_int_diff)
    also have "\<dots> \<le> \<bar>x\<bar> / 2 ^ 52"
      using ilog2_bounds(1) [OF assms] by (simp add: divide_right_mono)
    finally have "(2::rat) powi e / 2 \<le> \<bar>x\<bar> / 2 ^ 53" by simp
    with half have "\<bar>round_value x - x\<bar> \<le> \<bar>x\<bar> / 2 ^ 53" by (rule order_trans)
    moreover have "(0::rat) \<le> 1 / 2 ^ 1075" by simp
    ultimately show ?thesis by (rule add_increasing2 [rotated])
  next
    case False
    then have "e = - 1074" by (simp add: e_def ulp_exp_def)
    then have "(2::rat) powi e / 2 = 1 / 2 ^ 1075" by simp
    with half have "\<bar>round_value x - x\<bar> \<le> 1 / 2 ^ 1075" by (simp only:)
    moreover have "0 \<le> \<bar>x\<bar> / 2 ^ 53" by simp
    ultimately show ?thesis by (rule add_increasing [rotated])
  qed
qed

lemma round_value_zero [simp]: "round_value 0 = 0"
  by (simp add: round_value_def round_half_even_def)

lemma round_to_double_finite:
  assumes "\<bar>x\<bar> \<le> 2 ^ 1023"
  shows "is_finite (round_to_double x)" and "value_of (round_to_double x) = round_value x"
proof -
  have no_overflow: "\<not> (round_value x \<noteq> 0 \<and> 1024 \<le> ilog2 (round_value x))" if "x \<noteq> 0"
  proof
    assume y: "round_value x \<noteq> 0 \<and> 1024 \<le> ilog2 (round_value x)"
    from round_value_error [OF that] assms
    have "\<bar>round_value x\<bar> < 2 ^ 1024" by simp
    then have lt: "\<bar>round_value x\<bar> < 2 powi 1024" by simp
    from y have "round_value x \<noteq> 0" by simp
    from powi2_le_lessD [OF ilog2_bounds(1) [OF this] lt] y show False by simp
  qed
  show "is_finite (round_to_double x)"
    using no_overflow by (cases "x = 0") (auto simp: round_to_double_def Let_def)
  show "value_of (round_to_double x) = round_value x"
    using no_overflow by (cases "x = 0") (auto simp: round_to_double_def Let_def)
qed

lemma round_to_double_near:
  assumes "\<bar>x\<bar> \<le> 2 ^ 1023"
  shows "is_finite (round_to_double x)"
    and "\<bar>value_of (round_to_double x) - x\<bar> \<le> (\<bar>x\<bar> + 1) / 2 ^ 53"
proof -
  show "is_finite (round_to_double x)" using assms by (rule round_to_double_finite)
  show "\<bar>value_of (round_to_double x) - x\<bar> \<le> (\<bar>x\<bar> + 1) / 2 ^ 53"
  proof (cases "x = 0")
    case True
    then show ?thesis by (simp add: round_to_double_def)
  next
    case False
    from round_value_error [OF False]
    have "\<bar>round_value x - x\<bar> \<le> \<bar>x\<bar> / 2 ^ 53 + 1 / 2 ^ 53" by simp
    then show ?thesis
      by (simp add: round_to_double_finite(2) [OF assms] add_divide_distrib)
  qed
qed

lemma round_half_even_ge_floor: "\<lfloor>q\<rfloor> \<le> round_half_even q"
  by (simp add: round_half_even_def Let_def)

lemma round_to_double_overflow:
  assumes "2 ^ 1024 \<le> x"
  shows "round_to_double x = PosInf"
proof -
  have x: "0 < x" using assms by (rule less_le_trans [rotated]) simp
  then have nz: "x \<noteq> 0" and ax: "\<bar>x\<bar> = x" by simp_all
  define k where "k = ilog2 x"
  have lo: "2 powi k \<le> x" and hi: "x < 2 powi (k + 1)"
    using ilog2_bounds [OF nz] by (simp_all add: k_def ax)
  have "(2::rat) powi 1024 \<le> x" using assms by simp
  from powi2_le_lessD [OF this hi] have k: "1024 \<le> k" by simp
  then have e: "ulp_exp x = k - 52" by (simp add: ulp_exp_def k_def)
  define m where "m = round_half_even (x / 2 powi (k - 52))"
  have "(2::rat) powi k / 2 powi (k - 52) \<le> x / 2 powi (k - 52)"
    using lo by (simp add: divide_right_mono)
  moreover have "(2::rat) powi k / 2 powi (k - 52) = 2 powi (k - (k - 52))"
    by (rule power_int_diff [symmetric]) simp
  ultimately have "(2::rat) ^ 52 \<le> x / 2 powi (k - 52)" by simp
  then have "(2::int) ^ 52 \<le> \<lfloor>x / 2 powi (k - 52)\<rfloor>" by (simp add: le_floor_iff)
  then have m: "2 ^ 52 \<le> m"
    unfolding m_def using round_half_even_ge_floor by (rule order_trans)
  have y: "round_value x = of_int m * 2 powi (k - 52)"
    by (simp add: round_value_def e m_def)
  have "(2::rat) powi (52 + (k - 52)) = 2 powi 52 * 2 powi (k - 52)"
    by (rule power_int_add) simp
  then have "(2::rat) powi k = 2 powi 52 * 2 powi (k - 52)" by simp
  also have "\<dots> \<le> of_int m * 2 powi (k - 52)"
  proof (rule mult_right_mono)
    from m have "(of_int (2 ^ 52) :: rat) \<le> of_int m" by (simp only: of_int_le_iff)
    then show "(2::rat) powi 52 \<le> of_int m" by simp
    show "(0::rat) \<le> 2 powi (k - 52)" by simp
  qed
  finally have big: "2 powi k \<le> round_value x" by (simp add: y)
  have pos: "0 < round_value x" using big by (rule less_le_trans [rotated]) simp
  then have ynz: "round_value x \<noteq> 0" and ay: "\<bar>round_value x\<bar> = round_value x" by simp_all
  from ilog2_bounds(2) [OF ynz] have "round_value x < 2 powi (ilog2 (round_value x) + 1)"
    by (simp add: ay)
  from powi2_le_lessD [OF big this] k have "1024 \<le> ilog2 (round_value x)" by simp
  with ynz x nz show ?thesis by (simp add: round_to_double_def Let_def)
qed

text \<open>The same for the float operations of the converter, whose second operand is a literal.\<close>

lemma is_finite_cases:
  assumes "is_finite a"
  obtains p where "a = Finite p" | "a = NegZero"
  using assms by (cases a) auto

lemma py_mul_near:
  assumes "is_finite a" and "q \<noteq> 0" and "\<bar>value_of a * q\<bar> \<le> 2 ^ 1023"
  shows "is_finite (py_mul a (Finite q))"
    and "\<bar>value_of (py_mul a (Finite q)) - value_of a * q\<bar> \<le> (\<bar>value_of a * q\<bar> + 1) / 2 ^ 53"
proof -
  from assms(1) have "is_finite (py_mul a (Finite q))
      \<and> \<bar>value_of (py_mul a (Finite q)) - value_of a * q\<bar> \<le> (\<bar>value_of a * q\<bar> + 1) / 2 ^ 53"
  proof (cases rule: is_finite_cases)
    case (1 p)
    show ?thesis
    proof (cases "p = 0")
      case True
      with 1 assms(2) show ?thesis by (simp add: py_mul_def signed_zero_def)
    next
      case False
      with 1 assms(2) have "py_mul a (Finite q) = round_to_double (value_of a * q)"
        by (simp add: py_mul_def)
      with round_to_double_near [OF assms(3)] show ?thesis by simp
    qed
  next
    case 2
    then show ?thesis by (simp add: py_mul_def signed_zero_def)
  qed
  then show "is_finite (py_mul a (Finite q))"
    and "\<bar>value_of (py_mul a (Finite q)) - value_of a * q\<bar> \<le> (\<bar>value_of a * q\<bar> + 1) / 2 ^ 53"
    by simp_all
qed

lemma ieee_div_near:
  assumes "is_finite a" and "q \<noteq> 0" and "\<bar>value_of a / q\<bar> \<le> 2 ^ 1023"
  shows "is_finite (ieee_div a (Finite q))"
    and "\<bar>value_of (ieee_div a (Finite q)) - value_of a / q\<bar> \<le> (\<bar>value_of a / q\<bar> + 1) / 2 ^ 53"
proof -
  from assms(1) have "is_finite (ieee_div a (Finite q))
      \<and> \<bar>value_of (ieee_div a (Finite q)) - value_of a / q\<bar> \<le> (\<bar>value_of a / q\<bar> + 1) / 2 ^ 53"
  proof (cases rule: is_finite_cases)
    case (1 p)
    show ?thesis
    proof (cases "p = 0")
      case True
      with 1 assms(2) show ?thesis by (simp add: ieee_div_def signed_zero_def)
    next
      case False
      with 1 assms(2) have "ieee_div a (Finite q) = round_to_double (value_of a / q)"
        by (simp add: ieee_div_def)
      with round_to_double_near [OF assms(3)] show ?thesis by simp
    qed
  next
    case 2
    then show ?thesis by (simp add: ieee_div_def signed_zero_def)
  qed
  then show "is_finite (ieee_div a (Finite q))"
    and "\<bar>value_of (ieee_div a (Finite q)) - value_of a / q\<bar> \<le> (\<bar>value_of a / q\<bar> + 1) / 2 ^ 53"
    by simp_all
qed

lemma py_add_near:
  assumes "is_finite a" and "q \<noteq> 0" and "\<bar>value_of a + q\<bar> \<le> 2 ^ 1023"
  shows "is_finite (py_add a (Finite q))"
    and "\<bar>value_of (py_add a (Finite q)) - (value_of a + q)\<bar> \<le> (\<bar>value_of a + q\<bar> + 1) / 2 ^ 53"
proof -
  have nn: "\<not> is_nan a" "\<not> is_inf a" using assms(1) by (cases a; simp)+
  have "is_finite (py_add a (Finite q))
      \<and> \<bar>value_of (py_add a (Finite q)) - (value_of a + q)\<bar> \<le> (\<bar>value_of a + q\<bar> + 1) / 2 ^ 53"
  proof (cases "value_of a + q = 0")
    case True
    with nn assms(2) show ?thesis by (simp add: py_add_def)
  next
    case False
    with nn assms(2) have "py_add a (Finite q) = round_to_double (value_of a + q)"
      by (simp add: py_add_def)
    with round_to_double_near [OF assms(3)] show ?thesis by simp
  qed
  then show "is_finite (py_add a (Finite q))"
    and "\<bar>value_of (py_add a (Finite q)) - (value_of a + q)\<bar> \<le> (\<bar>value_of a + q\<bar> + 1) / 2 ^ 53"
    by simp_all
qed

lemma py_sub_near:
  assumes "is_finite a" and "q \<noteq> 0" and "\<bar>value_of a - q\<bar> \<le> 2 ^ 1023"
  shows "is_finite (py_sub a (Finite q))"
    and "\<bar>value_of (py_sub a (Finite q)) - (value_of a - q)\<bar> \<le> (\<bar>value_of a - q\<bar> + 1) / 2 ^ 53"
proof -
  have eq: "py_sub a (Finite q) = py_add a (Finite (- q))"
    using assms(2) by (simp add: py_sub_def)
  from assms(2) have q: "- q \<noteq> 0" by simp
  from assms(3) have b: "\<bar>value_of a + - q\<bar> \<le> 2 ^ 1023" by simp
  from py_add_near [OF assms(1) q b]
  show "is_finite (py_sub a (Finite q))"
    and "\<bar>value_of (py_sub a (Finite q)) - (value_of a - q)\<bar> \<le> (\<bar>value_of a - q\<bar> + 1) / 2 ^ 53"
    by (simp_all add: eq)
qed

section \<open>The converter: accuracy\<close>

text \<open>
  The results of the two conversions lie within a few units of rounding error of the exact
  formulas, as long as no intermediate result overflows.
\<close>

lemma celsius_to_fahrenheit_near:
  assumes fin: "is_finite c" and small: "\<bar>value_of c\<bar> \<le> 2 ^ 1010"
  shows "\<exists>f. celsius_to_fahrenheit c = Inr f \<and> is_finite f
           \<and> \<bar>value_of f - (value_of c * 9 / 5 + 32)\<bar> \<le> (11 / 2 * \<bar>value_of c\<bar> + 36) / 2 ^ 53"
proof -
  define p where "p = value_of c"
  define a1 where "a1 = py_mul c (Finite 9)"
  define a2 where "a2 = ieee_div a1 (Finite 5)"
  define a3 where "a3 = py_add a2 (Finite 32)"
  define v1 where "v1 = value_of a1"
  define v2 where "v2 = value_of a2"
  define v3 where "v3 = value_of a3"
  define u :: rat where "u = 1 / 2 ^ 53"
  define M :: rat where "M = 2 ^ 1010"
  define P where "P = \<bar>p\<bar>"
  define E1 where "E1 = \<bar>v1 - 9 * p\<bar>"
  define N1 where "N1 = \<bar>v1\<bar>"
  define E2 where "E2 = \<bar>v2 - v1 / 5\<bar>"
  define D2 where "D2 = \<bar>v2 - 9 / 5 * p\<bar>"
  define N2 where "N2 = \<bar>v2 + 32\<bar>"
  define E3 where "E3 = \<bar>v3 - (v2 + 32)\<bar>"
  define D3 where "D3 = \<bar>v3 - (9 / 5 * p + 32)\<bar>"
  have u: "u = 1 / 9007199254740992" by (simp add: u_def)
  have M: "10 * M + 100 \<le> 2 ^ 1023" by (simp add: M_def)
  have P: "0 \<le> P" "P \<le> M" using small by (simp_all add: P_def p_def M_def)
  have b1: "\<bar>value_of c * 9\<bar> \<le> 2 ^ 1023"
    using small by (simp add: abs_mult)
  from py_mul_near [OF fin _ b1]
  have f1: "is_finite a1" and e1: "E1 \<le> (P * 9 + 1) * u"
    by (simp_all add: a1_def v1_def p_def u_def abs_mult E1_def P_def mult.commute)
  have t1: "N1 \<le> E1 + 9 * P" unfolding N1_def E1_def P_def by linarith
  from e1 t1 P(1) have n1: "N1 \<le> 901 / 100 * P + 1 / 100"
    unfolding u ring_distribs by linarith
  from n1 P M have "N1 / 5 \<le> 2 ^ 1023" by linarith
  then have b2: "\<bar>value_of a1 / 5\<bar> \<le> 2 ^ 1023"
    by (simp add: N1_def v1_def)
  from ieee_div_near [OF f1 _ b2]
  have f2: "is_finite a2" and e2: "E2 \<le> (N1 / 5 + 1) * u"
    by (simp_all add: a2_def v2_def v1_def u_def E2_def N1_def)
  have "\<bar>v2 - 9 / 5 * p\<bar> \<le> \<bar>v2 - v1 / 5\<bar> + \<bar>v1 / 5 - 9 / 5 * p\<bar>" by linarith
  moreover have "v1 / 5 - 9 / 5 * p = (v1 - 9 * p) / 5" by (simp add: diff_divide_distrib)
  then have "\<bar>v1 / 5 - 9 / 5 * p\<bar> = \<bar>v1 - 9 * p\<bar> / 5" by (simp only: abs_divide)
  ultimately have t2: "D2 \<le> E2 + E1 / 5" by (simp add: D2_def E2_def E1_def)
  from e1 n1 e2 t2 P(1) have d2: "D2 \<le> (361 / 100 * P + 13 / 10) * u"
    unfolding u ring_distribs by linarith
  have t3: "N2 \<le> D2 + 9 / 5 * P + 32" unfolding N2_def D2_def P_def by linarith
  from d2 t3 P(1) have n2: "N2 \<le> 181 / 100 * P + 33"
    unfolding u ring_distribs by linarith
  from n2 P M have "N2 \<le> 2 ^ 1023" by linarith
  then have b3: "\<bar>value_of a2 + 32\<bar> \<le> 2 ^ 1023"
    by (simp add: N2_def v2_def)
  from py_add_near [OF f2 _ b3]
  have f3: "is_finite a3" and e3: "E3 \<le> (N2 + 1) * u"
    by (simp_all add: a3_def v3_def v2_def u_def E3_def N2_def)
  have t4: "D3 \<le> E3 + D2" unfolding D3_def E3_def D2_def by linarith
  from d2 n2 e3 t4 P(1) have d3: "D3 \<le> (11 / 2 * P + 36) * u"
    unfolding u ring_distribs by linarith
  have "celsius_to_fahrenheit c = Inr a3"
    by (simp add: celsius_to_fahrenheit_float a3_def a2_def a1_def)
  moreover have "9 / 5 * p + 32 = p * 9 / 5 + 32" by simp
  with d3 have "\<bar>v3 - (p * 9 / 5 + 32)\<bar> \<le> (11 / 2 * P + 36) * u" by (simp only: D3_def)
  ultimately show ?thesis using f3 by (auto simp: v3_def u_def P_def p_def)
qed

lemma fahrenheit_to_celsius_near:
  assumes fin: "is_finite f" and small: "\<bar>value_of f\<bar> \<le> 2 ^ 1010"
  shows "\<exists>c. fahrenheit_to_celsius f = Inr c \<and> is_finite c
           \<and> \<bar>value_of c - (value_of f - 32) * 5 / 9\<bar> \<le> (7 / 4 * \<bar>value_of f\<bar> + 56) / 2 ^ 53"
proof -
  define p where "p = value_of f"
  define b1 where "b1 = py_sub f (Finite 32)"
  define b2 where "b2 = py_mul b1 (Finite 5)"
  define b3 where "b3 = ieee_div b2 (Finite 9)"
  define w1 where "w1 = value_of b1"
  define w2 where "w2 = value_of b2"
  define w3 where "w3 = value_of b3"
  define u :: rat where "u = 1 / 2 ^ 53"
  define M :: rat where "M = 2 ^ 1010"
  define P where "P = \<bar>p\<bar>"
  define Q where "Q = \<bar>p - 32\<bar>"
  define E1 where "E1 = \<bar>w1 - (p - 32)\<bar>"
  define N1 where "N1 = \<bar>w1\<bar>"
  define E2 where "E2 = \<bar>w2 - 5 * w1\<bar>"
  define D2 where "D2 = \<bar>w2 - (5 * p - 160)\<bar>"
  define N2 where "N2 = \<bar>w2\<bar>"
  define E3 where "E3 = \<bar>w3 - w2 / 9\<bar>"
  define D3 where "D3 = \<bar>w3 - (5 / 9 * p - 160 / 9)\<bar>"
  have u: "u = 1 / 9007199254740992" by (simp add: u_def)
  have M: "10 * M + 1000 \<le> 2 ^ 1023" by (simp add: M_def)
  have P: "0 \<le> P" "P \<le> M" using small by (simp_all add: P_def p_def M_def)
  have q: "Q \<le> P + 32" unfolding Q_def P_def by linarith
  from q P M have "Q \<le> 2 ^ 1023" by linarith
  then have c1: "\<bar>value_of f - 32\<bar> \<le> 2 ^ 1023" by (simp add: Q_def p_def)
  from py_sub_near [OF fin _ c1]
  have f1: "is_finite b1" and e1: "E1 \<le> (Q + 1) * u"
    by (simp_all add: b1_def w1_def p_def u_def E1_def Q_def)
  have t1: "N1 \<le> E1 + Q" unfolding N1_def E1_def Q_def by linarith
  from e1 t1 q P(1) have n1: "N1 \<le> 101 / 100 * P + 33"
    unfolding u ring_distribs by linarith
  from n1 P M have "5 * N1 \<le> 2 ^ 1023" by linarith
  then have c2: "\<bar>value_of b1 * 5\<bar> \<le> 2 ^ 1023"
    by (simp add: N1_def w1_def abs_mult mult.commute)
  from py_mul_near [OF f1 _ c2]
  have f2: "is_finite b2" and e2: "E2 \<le> (5 * N1 + 1) * u"
    by (simp_all add: b2_def w2_def w1_def u_def E2_def N1_def abs_mult mult.commute)
  have "\<bar>w2 - (5 * p - 160)\<bar> \<le> \<bar>w2 - 5 * w1\<bar> + \<bar>5 * w1 - (5 * p - 160)\<bar>" by linarith
  moreover have "5 * w1 - (5 * p - 160) = 5 * (w1 - (p - 32))" by simp
  then have "\<bar>5 * w1 - (5 * p - 160)\<bar> = 5 * \<bar>w1 - (p - 32)\<bar>" by (simp only: abs_mult)
  ultimately have t2: "D2 \<le> E2 + 5 * E1" by (simp add: D2_def E2_def E1_def)
  from e1 n1 e2 t2 q P(1) have d2: "D2 \<le> (1006 / 100 * P + 332) * u"
    unfolding u ring_distribs by linarith
  have "\<bar>w2\<bar> \<le> \<bar>w2 - (5 * p - 160)\<bar> + \<bar>5 * p - 160\<bar>" by linarith
  moreover have "5 * p - 160 = 5 * (p - 32)" by simp
  then have "\<bar>5 * p - 160\<bar> = 5 * \<bar>p - 32\<bar>" by (simp only: abs_mult)
  ultimately have t3: "N2 \<le> D2 + 5 * Q" by (simp add: N2_def D2_def Q_def)
  from d2 t3 q P(1) have n2: "N2 \<le> 501 / 100 * P + 161"
    unfolding u ring_distribs by linarith
  from n2 P M have "N2 / 9 \<le> 2 ^ 1023" by linarith
  then have c3: "\<bar>value_of b2 / 9\<bar> \<le> 2 ^ 1023"
    by (simp add: N2_def w2_def)
  from ieee_div_near [OF f2 _ c3]
  have f3: "is_finite b3" and e3: "E3 \<le> (N2 / 9 + 1) * u"
    by (simp_all add: b3_def w3_def w2_def u_def E3_def N2_def)
  have "\<bar>w3 - (5 / 9 * p - 160 / 9)\<bar> \<le> \<bar>w3 - w2 / 9\<bar> + \<bar>w2 / 9 - (5 / 9 * p - 160 / 9)\<bar>"
    by linarith
  moreover have "w2 / 9 - (5 / 9 * p - 160 / 9) = (w2 - (5 * p - 160)) / 9"
    by (simp add: diff_divide_distrib)
  then have "\<bar>w2 / 9 - (5 / 9 * p - 160 / 9)\<bar> = \<bar>w2 - (5 * p - 160)\<bar> / 9"
    by (simp only: abs_divide)
  ultimately have t4: "D3 \<le> E3 + D2 / 9" by (simp add: D3_def E3_def D2_def)
  from d2 n2 e3 t4 P(1) have d3: "D3 \<le> (7 / 4 * P + 56) * u"
    unfolding u ring_distribs by linarith
  have "fahrenheit_to_celsius f = Inr b3"
    by (simp add: fahrenheit_to_celsius_float b3_def b2_def b1_def)
  moreover have "5 / 9 * p - 160 / 9 = (p - 32) * 5 / 9" by (simp add: diff_divide_distrib)
  with d3 have "\<bar>w3 - (p - 32) * 5 / 9\<bar> \<le> (7 / 4 * P + 56) * u" by (simp only: D3_def)
  ultimately show ?thesis using f3 by (auto simp: w3_def u_def P_def p_def)
qed

lemma exact_round_trips:
  "exact_fahrenheit_to_celsius (exact_celsius_to_fahrenheit x) = x"
  "exact_celsius_to_fahrenheit (exact_fahrenheit_to_celsius x) = x"
  by (simp_all add: exact_celsius_to_fahrenheit_def exact_fahrenheit_to_celsius_def
      diff_divide_distrib)

section \<open>The converter: round trips\<close>

lemma ilog2_2_1023: "ilog2 (2 ^ 1023) = 1023"
  by (rule ilog2_eqI) simp_all

lemma is_double_2_1023: "is_double (Finite (2 ^ 1023))"
  unfolding is_double.simps representable_def ulp_exp_def ilog2_2_1023 by simp

lemma celsius_to_fahrenheit_overflow: "celsius_to_fahrenheit (Finite (2 ^ 1023)) = Inr PosInf"
proof -
  have "py_mul (Finite (2 ^ 1023)) (Finite 9) = round_to_double (2 ^ 1023 * 9)"
    by (simp add: py_mul_def)
  also have "\<dots> = PosInf" by (rule round_to_double_overflow) simp
  finally show ?thesis
    by (simp add: celsius_to_fahrenheit_float ieee_div_def py_add_def signed_inf_def)
qed

lemma fahrenheit_to_celsius_PosInf: "fahrenheit_to_celsius PosInf = Inr PosInf"
  by (simp add: fahrenheit_to_celsius_float py_sub_def py_add_def py_mul_def ieee_div_def
      signed_inf_def)

text \<open>
  Claim C3, as stated, fails on floats. At \<open>c = 1.0\<close> the round trip gives
  \<open>0.9999999999999984\<close> (the float \<open>1 - 7 / 2 ^ 52\<close>), not \<open>1.0\<close>; and at the finite
  float \<open>c = 2 ^ 1023\<close> the product \<^verbatim>\<open>c * 9\<close> overflows, so the round trip gives
  infinity, which is within no tolerance of \<open>c\<close>.
\<close>

theorem celsius_round_trip_counterexample:
  "is_double (Finite 1)
   \<and> celsius_to_fahrenheit (Finite 1) = Inr (Finite (2378463553205043 / 70368744177664))
   \<and> fahrenheit_to_celsius (Finite (2378463553205043 / 70368744177664)) =
       Inr (Finite (4503599627370489 / 4503599627370496))
   \<and> \<not> py_eq (Finite (4503599627370489 / 4503599627370496)) (Finite 1)
   \<and> is_double (Finite (2 ^ 1023))
   \<and> celsius_to_fahrenheit (Finite (2 ^ 1023)) = Inr PosInf
   \<and> fahrenheit_to_celsius PosInf = Inr PosInf
   \<and> \<not> py_eq PosInf (Finite (2 ^ 1023))"
proof -
  have "is_double (Finite 1)" by code_simp
  moreover have "celsius_to_fahrenheit (Finite 1) = Inr (Finite (2378463553205043 / 70368744177664))"
    by code_simp
  moreover have "fahrenheit_to_celsius (Finite (2378463553205043 / 70368744177664)) =
       Inr (Finite (4503599627370489 / 4503599627370496))"
    by code_simp
  moreover have "\<not> py_eq (Finite (4503599627370489 / 4503599627370496)) (Finite 1)"
    by (simp add: py_eq_def)
  moreover have "\<not> py_eq PosInf (Finite (2 ^ 1023))"
    by (simp add: py_eq_def)
  ultimately show ?thesis
    using is_double_2_1023 celsius_to_fahrenheit_overflow fahrenheit_to_celsius_PosInf
    by (simp only: simp_thms)
qed

text \<open>
  Claim C3, amended. For every finite float \<open>c\<close> of magnitude at most \<open>2 ^ 1000\<close>,
  neither conversion raises, \<open>fahrenheit_to_celsius (celsius_to_fahrenheit c)\<close> is a
  finite float, and it differs from \<open>c\<close> by at most \<open>(\<bar>c\<bar> + 32) / 2 ^ 50\<close>. In exact
  arithmetic the round trip of the two formulas is the identity.
\<close>

theorem celsius_round_trip_tolerance:
  assumes fin: "is_finite c" and small: "\<bar>value_of c\<bar> \<le> 2 ^ 1000"
  shows "(\<exists>f r. celsius_to_fahrenheit c = Inr f \<and> fahrenheit_to_celsius f = Inr r \<and> is_finite r
            \<and> \<bar>value_of r - value_of c\<bar> \<le> (\<bar>value_of c\<bar> + 32) / 2 ^ 50)
         \<and> exact_fahrenheit_to_celsius (exact_celsius_to_fahrenheit x) = x"
proof -
  define p where "p = value_of c"
  define u :: rat where "u = 1 / 2 ^ 53"
  define M :: rat where "M = 2 ^ 1000"
  define P where "P = \<bar>p\<bar>"
  have u: "u = 1 / 9007199254740992" by (simp add: u_def)
  have M: "M \<le> 2 ^ 1010" "2 * M + 100 \<le> 2 ^ 1010" by (simp_all add: M_def)
  have P: "0 \<le> P" "P \<le> M" using small by (simp_all add: P_def p_def M_def)
  from P M have "P \<le> 2 ^ 1010" by linarith
  then have s1: "\<bar>value_of c\<bar> \<le> 2 ^ 1010" by (simp add: P_def p_def)
  from celsius_to_fahrenheit_near [OF fin s1] obtain f where
    f: "celsius_to_fahrenheit c = Inr f" "is_finite f"
    and df: "\<bar>value_of f - (p * 9 / 5 + 32)\<bar> \<le> (11 / 2 * P + 36) * u"
    by (auto simp: p_def P_def u_def)
  define q where "q = value_of f"
  define D where "D = \<bar>q - (9 / 5 * p + 32)\<bar>"
  define Q where "Q = \<bar>q\<bar>"
  have "9 / 5 * p + 32 = p * 9 / 5 + 32" by simp
  with df have d: "D \<le> (11 / 2 * P + 36) * u" by (simp only: D_def q_def)
  have t1: "Q \<le> D + 9 / 5 * P + 32" unfolding Q_def D_def P_def by linarith
  from d t1 P(1) have n: "Q \<le> 2 * P + 33" unfolding u ring_distribs by linarith
  from n P M have "Q \<le> 2 ^ 1010" by linarith
  then have s2: "\<bar>value_of f\<bar> \<le> 2 ^ 1010" by (simp add: Q_def q_def)
  from fahrenheit_to_celsius_near [OF f(2) s2] obtain r where
    r: "fahrenheit_to_celsius f = Inr r" "is_finite r"
    and dr: "\<bar>value_of r - (q - 32) * 5 / 9\<bar> \<le> (7 / 4 * Q + 56) * u"
    by (auto simp: q_def Q_def u_def)
  define w where "w = value_of r"
  define E where "E = \<bar>w - (5 / 9 * q - 160 / 9)\<bar>"
  define T where "T = \<bar>w - p\<bar>"
  have "5 / 9 * q - 160 / 9 = (q - 32) * 5 / 9" by (simp add: diff_divide_distrib)
  with dr have e: "E \<le> (7 / 4 * Q + 56) * u" by (simp only: E_def w_def)
  have "\<bar>w - p\<bar> \<le> \<bar>w - (5 / 9 * q - 160 / 9)\<bar> + \<bar>5 / 9 * q - 160 / 9 - p\<bar>" by linarith
  moreover have "5 / 9 * q - 160 / 9 - p = 5 / 9 * (q - (9 / 5 * p + 32))"
    by (simp add: algebra_simps)
  then have "\<bar>5 / 9 * q - 160 / 9 - p\<bar> = 5 / 9 * \<bar>q - (9 / 5 * p + 32)\<bar>"
    by (simp only: abs_mult)
  ultimately have t2: "T \<le> E + 5 / 9 * D" by (simp add: T_def E_def D_def)
  from d n e t2 P(1) have "T \<le> (8 * P + 256) * u" unfolding u ring_distribs by linarith
  then have "\<bar>value_of r - value_of c\<bar> \<le> (\<bar>value_of c\<bar> + 32) / 2 ^ 50"
    by (simp add: T_def w_def p_def P_def u_def)
  with f r show ?thesis by (auto simp: exact_round_trips)
qed

theorem celsius_round_trip_tolerance_witness:
  "\<exists>f r. celsius_to_fahrenheit (Finite 1) = Inr f \<and> fahrenheit_to_celsius f = Inr r \<and> is_finite r
     \<and> \<bar>value_of r - 1\<bar> \<le> 33 / 2 ^ 50"
  using celsius_round_trip_tolerance [of "Finite 1"] by simp

text \<open>
  Claim C9, as stated, fails on floats. At \<open>f = 0.1\<close> the reverse round trip gives
  \<open>0.10000000000000142\<close>; and \<open>celsius_to_fahrenheit\<close> is not injective: it maps both
  \<open>0.0\<close> and \<open>2 ^ - 60\<close> to \<open>32.0\<close>, so it has no inverse.
\<close>

theorem fahrenheit_round_trip_counterexample:
  "is_double (Finite (3602879701896397 / 36028797018963968))
   \<and> float_literal (1 / 10) = Finite (3602879701896397 / 36028797018963968)
   \<and> fahrenheit_to_celsius (Finite (3602879701896397 / 36028797018963968)) =
       Inr (Finite (- (2494181043630535 / 140737488355328)))
   \<and> celsius_to_fahrenheit (Finite (- (2494181043630535 / 140737488355328))) =
       Inr (Finite (14073748835533 / 140737488355328))
   \<and> \<not> py_eq (Finite (14073748835533 / 140737488355328))
           (Finite (3602879701896397 / 36028797018963968))
   \<and> is_double (Finite (1 / 2 ^ 60))
   \<and> celsius_to_fahrenheit (Finite (1 / 2 ^ 60)) = Inr (Finite 32)
   \<and> celsius_to_fahrenheit (Finite 0) = Inr (Finite 32)"
proof -
  have "is_double (Finite (3602879701896397 / 36028797018963968))" by code_simp
  moreover have "float_literal (1 / 10) = Finite (3602879701896397 / 36028797018963968)"
    by code_simp
  moreover have "fahrenheit_to_celsius (Finite (3602879701896397 / 36028797018963968)) =
       Inr (Finite (- (2494181043630535 / 140737488355328)))"
    by code_simp
  moreover have "celsius_to_fahrenheit (Finite (- (2494181043630535 / 140737488355328))) =
       Inr (Finite (14073748835533 / 140737488355328))"
    by code_simp
  moreover have "\<not> py_eq (Finite (14073748835533 / 140737488355328))
           (Finite (3602879701896397 / 36028797018963968))"
    by (simp add: py_eq_def)
  moreover have "is_double (Finite (1 / 2 ^ 60))" by code_simp
  moreover have "celsius_to_fahrenheit (Finite (1 / 2 ^ 60)) = Inr (Finite 32)" by code_simp
  moreover have "celsius_to_fahrenheit (Finite 0) = Inr (Finite 32)" by code_simp
  ultimately show ?thesis by (simp only: simp_thms)
qed

text \<open>
  Claim C9, amended. For every finite float \<open>f\<close> of magnitude at most \<open>2 ^ 1000\<close>,
  neither conversion raises, \<open>celsius_to_fahrenheit (fahrenheit_to_celsius f)\<close> is a
  finite float, and it differs from \<open>f\<close> by at most \<open>(\<bar>f\<bar> + 32) / 2 ^ 50\<close>. In exact
  arithmetic the two formulas are inverse to each other.
\<close>

theorem fahrenheit_round_trip_tolerance:
  assumes fin: "is_finite f" and small: "\<bar>value_of f\<bar> \<le> 2 ^ 1000"
  shows "(\<exists>c r. fahrenheit_to_celsius f = Inr c \<and> celsius_to_fahrenheit c = Inr r \<and> is_finite r
            \<and> \<bar>value_of r - value_of f\<bar> \<le> (\<bar>value_of f\<bar> + 32) / 2 ^ 50)
         \<and> exact_celsius_to_fahrenheit (exact_fahrenheit_to_celsius x) = x"
proof -
  define p where "p = value_of f"
  define u :: rat where "u = 1 / 2 ^ 53"
  define M :: rat where "M = 2 ^ 1000"
  define P where "P = \<bar>p\<bar>"
  have u: "u = 1 / 9007199254740992" by (simp add: u_def)
  have M: "M \<le> 2 ^ 1010" "2 * M + 100 \<le> 2 ^ 1010" by (simp_all add: M_def)
  have P: "0 \<le> P" "P \<le> M" using small by (simp_all add: P_def p_def M_def)
  from P M have "P \<le> 2 ^ 1010" by linarith
  then have s1: "\<bar>value_of f\<bar> \<le> 2 ^ 1010" by (simp add: P_def p_def)
  from fahrenheit_to_celsius_near [OF fin s1] obtain c where
    c: "fahrenheit_to_celsius f = Inr c" "is_finite c"
    and dc: "\<bar>value_of c - (p - 32) * 5 / 9\<bar> \<le> (7 / 4 * P + 56) * u"
    by (auto simp: p_def P_def u_def)
  define q where "q = value_of c"
  define D where "D = \<bar>q - (5 / 9 * p - 160 / 9)\<bar>"
  define Q where "Q = \<bar>q\<bar>"
  have "5 / 9 * p - 160 / 9 = (p - 32) * 5 / 9" by (simp add: diff_divide_distrib)
  with dc have d: "D \<le> (7 / 4 * P + 56) * u" by (simp only: D_def q_def)
  have t1: "Q \<le> D + 5 / 9 * P + 160 / 9" unfolding Q_def D_def P_def by linarith
  from d t1 P(1) have n: "Q \<le> 14 / 25 * P + 18" unfolding u ring_distribs by linarith
  from n P M have "Q \<le> 2 ^ 1010" by linarith
  then have s2: "\<bar>value_of c\<bar> \<le> 2 ^ 1010" by (simp add: Q_def q_def)
  from celsius_to_fahrenheit_near [OF c(2) s2] obtain r where
    r: "celsius_to_fahrenheit c = Inr r" "is_finite r"
    and dr: "\<bar>value_of r - (q * 9 / 5 + 32)\<bar> \<le> (11 / 2 * Q + 36) * u"
    by (auto simp: q_def Q_def u_def)
  define w where "w = value_of r"
  define E where "E = \<bar>w - (9 / 5 * q + 32)\<bar>"
  define T where "T = \<bar>w - p\<bar>"
  have "9 / 5 * q + 32 = q * 9 / 5 + 32" by simp
  with dr have e: "E \<le> (11 / 2 * Q + 36) * u" by (simp only: E_def w_def)
  have "\<bar>w - p\<bar> \<le> \<bar>w - (9 / 5 * q + 32)\<bar> + \<bar>9 / 5 * q + 32 - p\<bar>" by linarith
  moreover have "9 / 5 * q + 32 - p = 9 / 5 * (q - (5 / 9 * p - 160 / 9))"
    by (simp add: algebra_simps)
  then have "\<bar>9 / 5 * q + 32 - p\<bar> = 9 / 5 * \<bar>q - (5 / 9 * p - 160 / 9)\<bar>"
    by (simp only: abs_mult)
  ultimately have t2: "T \<le> E + 9 / 5 * D" by (simp add: T_def E_def D_def)
  from d n e t2 P(1) have "T \<le> (8 * P + 256) * u" unfolding u ring_distribs by linarith
  then have "\<bar>value_of r - value_of f\<bar> \<le> (\<bar>value_of f\<bar> + 32) / 2 ^ 50"
    by (simp add: T_def w_def p_def P_def u_def)
  with c r show ?thesis by (auto simp: exact_round_trips)
qed

theorem fahrenheit_round_trip_tolerance_witness:
  "\<exists>c r. fahrenheit_to_celsius (Finite (986 / 10)) = Inr c \<and> celsius_to_fahrenheit c = Inr r
     \<and> is_finite r \<and> \<bar>value_of r - 986 / 10\<bar> \<le> (986 / 10 + 32) / 2 ^ 50"
  using fahrenheit_round_trip_tolerance [of "Finite (986 / 10)"] by simp

section \<open>The shell: one step at a time\<close>

text \<open>What each reader does with the event at the head of the list.\<close>

lemma py_int_error: "py_int s = Inl e \<Longrightarrow> e = ValueError"
  by (auto simp: py_int_def Let_def split: prod.splits if_splits)

lemma py_float_error: "py_float s = Inl e \<Longrightarrow> e = ValueError"
  by (auto simp: py_float_def Let_def split: prod.splits if_splits option.splits)

lemma py_input_Line:
  "py_input prompt \<lparr>pending = Line s # rest, console = out\<rparr> =
     (Inr s, \<lparr>pending = rest, console = out @ [Prompt prompt]\<rparr>)"
  by (simp add: py_input_def emit_def)

lemma py_input_Interrupt:
  "py_input prompt \<lparr>pending = Interrupt # rest, console = out\<rparr> =
     (Inl KeyboardInterrupt, \<lparr>pending = rest, console = out @ [Prompt prompt]\<rparr>)"
  by (simp add: py_input_def emit_def)

lemma py_input_LoopInterrupt:
  "py_input prompt \<lparr>pending = LoopInterrupt # rest, console = out\<rparr> =
     (Inl KeyboardInterrupt, \<lparr>pending = rest, console = out @ [Prompt prompt]\<rparr>)"
  by (simp add: py_input_def emit_def)

lemma py_input_Nil:
  "py_input prompt \<lparr>pending = [], console = out\<rparr> =
     (Inl EOFError, \<lparr>pending = [], console = out @ [Prompt prompt]\<rparr>)"
  by (simp add: py_input_def emit_def)

lemma menu_entry_range: "menu_entry s = Some c \<Longrightarrow> c \<in> {1, 2, 3}"
  by (auto simp: menu_entry_def split: sum.splits if_splits)

lemma get_valid_menu_choice_accept:
  assumes "menu_entry s = Some c"
  shows "get_valid_menu_choice \<lparr>pending = Line s # rest, console = out\<rparr> =
     (Inr c, \<lparr>pending = rest, console = out @ [Prompt ''Enter your choice (1-3): '']\<rparr>)"
  using assms
  by (subst get_valid_menu_choice.simps)
    (auto simp: menu_attempt_def py_input_Line menu_entry_def split: sum.splits if_splits)

lemma get_valid_menu_choice_skip:
  assumes "menu_entry t = None"
  shows "get_valid_menu_choice \<lparr>pending = Line t # rest, console = out\<rparr> =
     get_valid_menu_choice \<lparr>pending = rest, console = out @ reprompt t\<rparr>"
  using assms
  by (subst get_valid_menu_choice.simps)
    (auto simp: menu_attempt_def py_input_Line menu_entry_def reprompt_def emit_def
      split: sum.splits if_splits dest: py_int_error)

lemma get_valid_menu_choice_Interrupt:
  "get_valid_menu_choice \<lparr>pending = Interrupt # rest, console = out\<rparr> =
     (Inl (SystemExit 1),
      \<lparr>pending = rest,
       console = out @ [Prompt ''Enter your choice (1-3): '',
                        Log WARNING ''Menu selection interrupted'',
                        Print (CHR 0x0A # ''Operation cancelled.'')]\<rparr>)"
  by (subst get_valid_menu_choice.simps)
    (simp add: menu_attempt_def py_input_Interrupt emit_def)

lemma get_valid_menu_choice_LoopInterrupt:
  "get_valid_menu_choice \<lparr>pending = LoopInterrupt # rest, console = out\<rparr> =
     (Inl (SystemExit 1),
      \<lparr>pending = rest,
       console = out @ [Prompt ''Enter your choice (1-3): '',
                        Log WARNING ''Menu selection interrupted'',
                        Print (CHR 0x0A # ''Operation cancelled.'')]\<rparr>)"
  by (subst get_valid_menu_choice.simps)
    (simp add: menu_attempt_def py_input_LoopInterrupt emit_def)

lemma get_valid_menu_choice_Nil:
  "get_valid_menu_choice \<lparr>pending = [], console = out\<rparr> =
     (Inl EOFError, \<lparr>pending = [], console = out @ [Prompt ''Enter your choice (1-3): '']\<rparr>)"
  by (subst get_valid_menu_choice.simps)
    (simp add: menu_attempt_def py_input_Nil emit_def)

lemma get_valid_menu_choice_skips:
  assumes "\<forall>t\<in>set skipped. menu_entry t = None"
  shows "get_valid_menu_choice \<lparr>pending = map Line skipped @ evs, console = out\<rparr> =
     get_valid_menu_choice \<lparr>pending = evs, console = out @ concat (map reprompt skipped)\<rparr>"
  using assms
proof (induction skipped arbitrary: out)
  case Nil
  then show ?case by simp
next
  case (Cons t skipped)
  then show ?case by (simp add: get_valid_menu_choice_skip)
qed

lemma get_valid_menu_choice_returns:
  assumes "get_valid_menu_choice \<lparr>pending = evs, console = out\<rparr> = (Inr c, w')"
  shows "\<exists>skipped s. evs = map Line skipped @ Line s # pending w'
           \<and> (\<forall>t\<in>set skipped. menu_entry t = None) \<and> menu_entry s = Some c
           \<and> console w' = out @ concat (map reprompt skipped) @ [Prompt ''Enter your choice (1-3): '']"
  using assms
proof (induction evs arbitrary: out)
  case Nil
  then show ?case by (simp add: get_valid_menu_choice_Nil)
next
  case (Cons ev evs)
  show ?case
  proof (cases ev)
    case (Line t)
    show ?thesis
    proof (cases "menu_entry t")
      case None
      with Cons.prems Line
      have "get_valid_menu_choice \<lparr>pending = evs, console = out @ reprompt t\<rparr> = (Inr c, w')"
        by (simp add: get_valid_menu_choice_skip)
      from Cons.IH [OF this] obtain skipped s where
        "evs = map Line skipped @ Line s # pending w'"
        "\<forall>t\<in>set skipped. menu_entry t = None" "menu_entry s = Some c"
        "console w' = (out @ reprompt t) @ concat (map reprompt skipped) @
                        [Prompt ''Enter your choice (1-3): '']"
        by blast
      with None Line have
        "ev # evs = map Line (t # skipped) @ Line s # pending w'
           \<and> (\<forall>u\<in>set (t # skipped). menu_entry u = None) \<and> menu_entry s = Some c
           \<and> console w' = out @ concat (map reprompt (t # skipped)) @
                              [Prompt ''Enter your choice (1-3): '']"
        by simp
      then show ?thesis by blast
    next
      case (Some c')
      with Cons.prems Line have "c' = c" "pending w' = evs"
        "console w' = out @ [Prompt ''Enter your choice (1-3): '']"
        by (auto simp: get_valid_menu_choice_accept)
      with Some Line have
        "ev # evs = map Line [] @ Line t # pending w'
           \<and> (\<forall>u\<in>set []. menu_entry u = None) \<and> menu_entry t = Some c
           \<and> console w' = out @ concat (map reprompt []) @ [Prompt ''Enter your choice (1-3): '']"
        by simp
      then show ?thesis by blast
    qed
  next
    case Interrupt
    with Cons.prems show ?thesis by (simp add: get_valid_menu_choice_Interrupt)
  next
    case LoopInterrupt
    with Cons.prems show ?thesis by (simp add: get_valid_menu_choice_LoopInterrupt)
  qed
qed

lemma get_valid_numeric_input_accept:
  assumes "py_float (py_strip s) = Inr v"
  shows "get_valid_numeric_input prompt \<lparr>pending = Line s # rest, console = out\<rparr> =
     (Inr v, \<lparr>pending = rest, console = out @ [Prompt prompt]\<rparr>)"
  using assms
  by (subst get_valid_numeric_input.simps) (simp add: float_attempt_def py_input_Line)

lemma get_valid_numeric_input_skip:
  assumes "py_float (py_strip t) = Inl e"
  shows "get_valid_numeric_input prompt \<lparr>pending = Line t # rest, console = out\<rparr> =
     get_valid_numeric_input prompt
       \<lparr>pending = rest,
        console = out @ [Prompt prompt, Print ''Error: Please enter a valid number.'']\<rparr>"
  using assms py_float_error [OF assms]
  by (subst get_valid_numeric_input.simps) (simp add: float_attempt_def py_input_Line emit_def)

lemma get_valid_numeric_input_Interrupt:
  "get_valid_numeric_input prompt \<lparr>pending = Interrupt # rest, console = out\<rparr> =
     (Inl (SystemExit 1),
      \<lparr>pending = rest,
       console = out @ [Prompt prompt, Log WARNING ''Input interrupted by user'',
                        Print (CHR 0x0A # ''Operation cancelled.'')]\<rparr>)"
  by (subst get_valid_numeric_input.simps)
    (simp add: float_attempt_def py_input_Interrupt emit_def)

lemma get_valid_numeric_input_LoopInterrupt:
  "get_valid_numeric_input prompt \<lparr>pending = LoopInterrupt # rest, console = out\<rparr> =
     (Inl (SystemExit 1),
      \<lparr>pending = rest,
       console = out @ [Prompt prompt, Log WARNING ''Input interrupted by user'',
                        Print (CHR 0x0A # ''Operation cancelled.'')]\<rparr>)"
  by (subst get_valid_numeric_input.simps)
    (simp add: float_attempt_def py_input_LoopInterrupt emit_def)

lemma get_valid_numeric_input_Nil:
  "get_valid_numeric_input prompt \<lparr>pending = [], console = out\<rparr> =
     (Inl EOFError, \<lparr>pending = [], console = out @ [Prompt prompt]\<rparr>)"
  by (subst get_valid_numeric_input.simps) (simp add: float_attempt_def py_input_Nil)

lemma display_menu_Line:
  "display_menu \<lparr>pending = Line s # rest, console = out\<rparr> =
     (Inr (), \<lparr>pending = Line s # rest, console = out @ menu_lines\<rparr>)"
  by (simp add: display_menu_def emit_def)

lemma menu_entry_1: "menu_entry ''1'' = Some 1"
  by code_simp

lemma menu_entry_2: "menu_entry ''2'' = Some 2"
  by code_simp

lemma menu_entry_3: "menu_entry ''3'' = Some 3"
  by code_simp

section \<open>The shell: the menu prompt\<close>

text \<open>
  Claim C7. Whenever \<open>get_valid_menu_choice\<close> returns, the result is 1, 2 or 3, and it
  is the first entry of the input that parses as an integer from 1 to 3: every line before
  it was rejected (it is not a number, or a number outside 1 to 3), each with a new prompt
  and an error message, and nothing after it was read. Conversely the function does return
  on every input of this shape.
\<close>

theorem get_valid_menu_choice_first_valid:
  "(get_valid_menu_choice \<lparr>pending = evs, console = out\<rparr> = (Inr c, w') \<longrightarrow>
      c \<in> {1, 2, 3} \<and>
      (\<exists>skipped s. evs = map Line skipped @ Line s # pending w'
         \<and> (\<forall>t\<in>set skipped. menu_entry t = None) \<and> menu_entry s = Some c
         \<and> console w' = out @ concat (map reprompt skipped) @
                           [Prompt ''Enter your choice (1-3): '']))
   \<and> ((\<forall>t\<in>set skipped. menu_entry t = None) \<and> menu_entry s = Some n \<longrightarrow>
        get_valid_menu_choice \<lparr>pending = map Line skipped @ Line s # rest, console = out\<rparr> =
          (Inr n, \<lparr>pending = rest,
                   console = out @ concat (map reprompt skipped) @
                                   [Prompt ''Enter your choice (1-3): '']\<rparr>))"
proof (intro conjI impI)
  assume r: "get_valid_menu_choice \<lparr>pending = evs, console = out\<rparr> = (Inr c, w')"
  from get_valid_menu_choice_returns [OF r]
  show "\<exists>skipped s. evs = map Line skipped @ Line s # pending w'
         \<and> (\<forall>t\<in>set skipped. menu_entry t = None) \<and> menu_entry s = Some c
         \<and> console w' = out @ concat (map reprompt skipped) @
                           [Prompt ''Enter your choice (1-3): '']" .
  then show "c \<in> {1, 2, 3}" by (auto dest: menu_entry_range)
next
  assume "(\<forall>t\<in>set skipped. menu_entry t = None) \<and> menu_entry s = Some n"
  then show "get_valid_menu_choice \<lparr>pending = map Line skipped @ Line s # rest, console = out\<rparr> =
          (Inr n, \<lparr>pending = rest,
                   console = out @ concat (map reprompt skipped) @
                                   [Prompt ''Enter your choice (1-3): '']\<rparr>)"
    by (simp add: get_valid_menu_choice_skips get_valid_menu_choice_accept)
qed

theorem get_valid_menu_choice_first_valid_witness:
  "get_valid_menu_choice (start [Line ''0'', Line ''4'', Line ''abc'', Line ''2'', Line ''1'']) =
     (Inr 2,
      \<lparr>pending = [Line ''1''],
       console =
         [Prompt ''Enter your choice (1-3): '', Print ''Invalid choice. Please select 1, 2, or 3.'',
          Prompt ''Enter your choice (1-3): '', Print ''Invalid choice. Please select 1, 2, or 3.'',
          Prompt ''Enter your choice (1-3): '', Print ''Error: Please enter a number between 1 and 3.'',
          Prompt ''Enter your choice (1-3): '']\<rparr>)"
proof -
  have skipped: "\<forall>t\<in>set [''0'', ''4'', ''abc'']. menu_entry t = None" by code_simp
  have entry: "menu_entry ''2'' = Some 2" by code_simp
  have texts: "concat (map reprompt [''0'', ''4'', ''abc'']) =
     [Prompt ''Enter your choice (1-3): '', Print ''Invalid choice. Please select 1, 2, or 3.'',
      Prompt ''Enter your choice (1-3): '', Print ''Invalid choice. Please select 1, 2, or 3.'',
      Prompt ''Enter your choice (1-3): '', Print ''Error: Please enter a number between 1 and 3.'']"
    by code_simp
  from get_valid_menu_choice_first_valid
    [where skipped = "[''0'', ''4'', ''abc'']" and s = "''2''" and n = 2
      and rest = "[Line ''1'']" and out = "[]"] skipped entry
  have "get_valid_menu_choice
          \<lparr>pending = map Line [''0'', ''4'', ''abc''] @ Line ''2'' # [Line ''1''], console = []\<rparr> =
        (Inr 2, \<lparr>pending = [Line ''1''],
                 console = [] @ concat (map reprompt [''0'', ''4'', ''abc'']) @
                             [Prompt ''Enter your choice (1-3): '']\<rparr>)"
    by blast
  then show ?thesis unfolding texts by (simp add: start_def)
qed

section \<open>The shell: a value out of range\<close>

text \<open>
  Claim C5. When the user chooses a conversion and enters a number outside the range of
  its scale, the shell prints and logs the range error and goes on with the next
  iteration of its loop: the run from there is the run of the loop on the remaining input,
  with a console that has gained the menu, the two prompts and the error report, and
  neither a result line nor a conversion record. With the input -300 for Celsius and then
  3, the menu is shown again and the shell leaves normally.
\<close>

theorem out_of_range_rejected:
  assumes "py_float (py_strip s) = Inr v"
  shows "(outside_range (- (2402652809016115 / 8796093022208)) 1000 v \<longrightarrow>
          run_loop \<lparr>pending = Line ''1'' # Line s # rest, console = out\<rparr> =
          run_loop
            \<lparr>pending = rest,
             console = out @ menu_lines @
               [Prompt ''Enter your choice (1-3): '',
                Prompt ''Enter temperature in Celsius: '',
                PrintExn ''Conversion Error: '' (TemperatureConversionError ''Celsius'' v),
                LogExn ERROR ''Temperature conversion error: ''
                  (TemperatureConversionError ''Celsius'' v)]\<rparr>)
       \<and> (outside_range (- (8086600159036703 / 17592186044416)) 1832 v \<longrightarrow>
          run_loop \<lparr>pending = Line ''2'' # Line s # rest, console = out\<rparr> =
          run_loop
            \<lparr>pending = rest,
             console = out @ menu_lines @
               [Prompt ''Enter your choice (1-3): '',
                Prompt ''Enter temperature in Fahrenheit: '',
                PrintExn ''Conversion Error: '' (TemperatureConversionError ''Fahrenheit'' v),
                LogExn ERROR ''Temperature conversion error: ''
                  (TemperatureConversionError ''Fahrenheit'' v)]\<rparr>)"
proof (intro conjI impI)
  assume "outside_range (- (2402652809016115 / 8796093022208)) 1000 v"
  then have "validate_temperature v ''C'' = Inl (TemperatureConversionError ''Celsius'' v)"
    by (simp add: validate_temperature_cases)
  then show "run_loop \<lparr>pending = Line ''1'' # Line s # rest, console = out\<rparr> =
          run_loop
            \<lparr>pending = rest,
             console = out @ menu_lines @
               [Prompt ''Enter your choice (1-3): '',
                Prompt ''Enter temperature in Celsius: '',
                PrintExn ''Conversion Error: '' (TemperatureConversionError ''Celsius'' v),
                LogExn ERROR ''Temperature conversion error: ''
                  (TemperatureConversionError ''Celsius'' v)]\<rparr>"
    using assms
    by (subst run_loop.simps)
      (simp add: display_menu_Line get_valid_menu_choice_accept [OF menu_entry_1]
        convert_def get_valid_numeric_input_accept handle_conversion_def emit_def)
next
  assume "outside_range (- (8086600159036703 / 17592186044416)) 1832 v"
  then have "validate_temperature v ''F'' = Inl (TemperatureConversionError ''Fahrenheit'' v)"
    by (simp add: validate_temperature_cases)
  then show "run_loop \<lparr>pending = Line ''2'' # Line s # rest, console = out\<rparr> =
          run_loop
            \<lparr>pending = rest,
             console = out @ menu_lines @
               [Prompt ''Enter your choice (1-3): '',
                Prompt ''Enter temperature in Fahrenheit: '',
                PrintExn ''Conversion Error: '' (TemperatureConversionError ''Fahrenheit'' v),
                LogExn ERROR ''Temperature conversion error: ''
                  (TemperatureConversionError ''Fahrenheit'' v)]\<rparr>"
    using assms
    by (subst run_loop.simps)
      (simp add: display_menu_Line get_valid_menu_choice_accept [OF menu_entry_2]
        convert_def get_valid_numeric_input_accept handle_conversion_def emit_def)
qed

theorem out_of_range_rejected_witness:
  "run_loop (start [Line ''1'', Line ''-300'', Line ''3'']) =
     (Inr (),
      \<lparr>pending = [],
       console =
         menu_lines @
         [Prompt ''Enter your choice (1-3): '',
          Prompt ''Enter temperature in Celsius: '',
          PrintExn ''Conversion Error: '' (TemperatureConversionError ''Celsius'' (Finite (- 300))),
          LogExn ERROR ''Temperature conversion error: ''
            (TemperatureConversionError ''Celsius'' (Finite (- 300)))] @
         menu_lines @
         [Prompt ''Enter your choice (1-3): '',
          Print ''Thank you for using Temperature Converter. Goodbye!'']\<rparr>)"
proof -
  have parse: "py_float (py_strip ''-300'') = Inr (Finite (- 300))" by code_simp
  have range: "outside_range (- (2402652809016115 / 8796093022208)) 1000 (Finite (- 300))"
    by simp
  have after:
    "run_loop
       \<lparr>pending = [Line ''3''],
        console = [] @ menu_lines @
          [Prompt ''Enter your choice (1-3): '',
           Prompt ''Enter temperature in Celsius: '',
           PrintExn ''Conversion Error: '' (TemperatureConversionError ''Celsius'' (Finite (- 300))),
           LogExn ERROR ''Temperature conversion error: ''
             (TemperatureConversionError ''Celsius'' (Finite (- 300)))]\<rparr> =
     (Inr (),
      \<lparr>pending = [],
       console =
         menu_lines @
         [Prompt ''Enter your choice (1-3): '',
          Prompt ''Enter temperature in Celsius: '',
          PrintExn ''Conversion Error: '' (TemperatureConversionError ''Celsius'' (Finite (- 300))),
          LogExn ERROR ''Temperature conversion error: ''
            (TemperatureConversionError ''Celsius'' (Finite (- 300)))] @
         menu_lines @
         [Prompt ''Enter your choice (1-3): '',
          Print ''Thank you for using Temperature Converter. Goodbye!'']\<rparr>)"
    by code_simp
  from out_of_range_rejected [OF parse, of "[Line ''3'']" "[]"] range
  have "run_loop \<lparr>pending = Line ''1'' # Line ''-300'' # [Line ''3''], console = []\<rparr> =
        run_loop
          \<lparr>pending = [Line ''3''],
           console = [] @ menu_lines @
             [Prompt ''Enter your choice (1-3): '',
              Prompt ''Enter temperature in Celsius: '',
              PrintExn ''Conversion Error: '' (TemperatureConversionError ''Celsius'' (Finite (- 300))),
              LogExn ERROR ''Temperature conversion error: ''
                (TemperatureConversionError ''Celsius'' (Finite (- 300)))]\<rparr>"
    by blast
  with after show ?thesis by (simp only: start_def)
qed

section \<open>The shell: how a run ends\<close>

text \<open>
  A reader raises only from its interrupt handler (\<^verbatim>\<open>sys.exit(1)\<close> after the warning and
  \<^verbatim>\<open>Operation cancelled.\<close>) or when the input is exhausted (\<^verbatim>\<open>EOFError\<close>).
\<close>

lemma ends_with_append [simp]:
  "ends_with sfx \<lparr>pending = evs, console = out @ sfx\<rparr>"
  by (simp add: ends_with_def)

lemma ends_with_emit [simp]: "ends_with sfx (emit sfx w)"
  by (simp add: ends_with_def emit_def)

lemma world_eq: "(w :: world) = \<lparr>pending = pending w, console = console w\<rparr>"
  by simp

lemma get_valid_menu_choice_raises:
  assumes "get_valid_menu_choice \<lparr>pending = evs, console = out\<rparr> = (Inl e, w1)"
  shows "(e = SystemExit 1 \<and>
            ends_with [Log WARNING ''Menu selection interrupted'',
                       Print (CHR 0x0A # ''Operation cancelled.'')] w1)
         \<or> (e = EOFError \<and> pending w1 = [] \<and> ends_with [Prompt ''Enter your choice (1-3): ''] w1)"
  using assms
proof (induction evs arbitrary: out)
  case Nil
  then show ?case by (auto simp: get_valid_menu_choice_Nil)
next
  case (Cons ev evs)
  show ?case
  proof (cases ev)
    case (Line t)
    show ?thesis
    proof (cases "menu_entry t")
      case None
      with Cons.prems Line
      have "get_valid_menu_choice \<lparr>pending = evs, console = out @ reprompt t\<rparr> = (Inl e, w1)"
        by (simp add: get_valid_menu_choice_skip)
      then show ?thesis by (rule Cons.IH)
    next
      case (Some c)
      with Cons.prems Line show ?thesis by (simp add: get_valid_menu_choice_accept)
    qed
  next
    case Interrupt
    with Cons.prems show ?thesis
      by (auto simp: get_valid_menu_choice_Interrupt ends_with_def)
  next
    case LoopInterrupt
    with Cons.prems show ?thesis
      by (auto simp: get_valid_menu_choice_LoopInterrupt ends_with_def)
  qed
qed

lemma get_valid_numeric_input_raises:
  assumes "get_valid_numeric_input prompt \<lparr>pending = evs, console = out\<rparr> = (Inl e, w1)"
  shows "(e = SystemExit 1 \<and>
            ends_with [Log WARNING ''Input interrupted by user'',
                       Print (CHR 0x0A # ''Operation cancelled.'')] w1)
         \<or> (e = EOFError \<and> pending w1 = [])"
  using assms
proof (induction evs arbitrary: out)
  case Nil
  then show ?case by (auto simp: get_valid_numeric_input_Nil)
next
  case (Cons ev evs)
  show ?case
  proof (cases ev)
    case (Line t)
    show ?thesis
    proof (cases "py_float (py_strip t)")
      case (Inl err)
      with Cons.prems Line
      have "get_valid_numeric_input prompt
              \<lparr>pending = evs,
               console = out @ [Prompt prompt, Print ''Error: Please enter a valid number.'']\<rparr> =
            (Inl e, w1)"
        by (simp add: get_valid_numeric_input_skip)
      then show ?thesis by (rule Cons.IH)
    next
      case (Inr v)
      with Cons.prems Line show ?thesis by (simp add: get_valid_numeric_input_accept)
    qed
  next
    case Interrupt
    with Cons.prems show ?thesis
      by (auto simp: get_valid_numeric_input_Interrupt ends_with_def)
  next
    case LoopInterrupt
    with Cons.prems show ?thesis
      by (auto simp: get_valid_numeric_input_LoopInterrupt ends_with_def)
  qed
qed

lemma get_valid_menu_choice_raises_world:
  assumes "get_valid_menu_choice w = (Inl e, w1)"
  shows "(e = SystemExit 1 \<and>
            ends_with [Log WARNING ''Menu selection interrupted'',
                       Print (CHR 0x0A # ''Operation cancelled.'')] w1)
         \<or> (e = EOFError \<and> pending w1 = [] \<and> ends_with [Prompt ''Enter your choice (1-3): ''] w1)"
proof (cases w)
  case (fields evs out)
  with assms show ?thesis by (simp add: get_valid_menu_choice_raises)
qed

lemma get_valid_numeric_input_raises_world:
  assumes "get_valid_numeric_input prompt w = (Inl e, w1)"
  shows "(e = SystemExit 1 \<and>
            ends_with [Log WARNING ''Input interrupted by user'',
                       Print (CHR 0x0A # ''Operation cancelled.'')] w1)
         \<or> (e = EOFError \<and> pending w1 = [])"
proof (cases w)
  case (fields evs out)
  with assms show ?thesis by (simp add: get_valid_numeric_input_raises)
qed

lemma display_menu_raises: "display_menu w = (Inl e, w1) \<Longrightarrow> e = KeyboardInterrupt"
  by (auto simp: display_menu_def split: list.splits event.splits)

lemma convert_raises:
  assumes "convert choice w = (Inl e, w1)"
  shows "is_TemperatureConversionError e
         \<or> (e = SystemExit 1 \<and>
              ends_with [Log WARNING ''Input interrupted by user'',
                         Print (CHR 0x0A # ''Operation cancelled.'')] w1)
         \<or> (e = EOFError \<and> pending w1 = [])"
proof -
  note num = get_valid_numeric_input_raises_world
  have val: "\<And>v sc e'. validate_temperature v sc = Inl e' \<Longrightarrow> is_TemperatureConversionError e'"
    by (auto simp: validate_temperature_def split: if_splits)
  from assms show ?thesis
    by (auto simp: convert_def celsius_to_fahrenheit_float fahrenheit_to_celsius_float
        split: if_splits prod.splits sum.splits dest: num val)
qed

lemma handle_conversion_raises:
  assumes "handle_conversion (convert choice w) = (Inl e, w1)"
  shows "e = SystemExit 1 \<and>
         ends_with [Log WARNING ''Input interrupted by user'',
                    Print (CHR 0x0A # ''Operation cancelled.'')] w1"
proof -
  obtain a w' where cv: "convert choice w = (a, w')" by (cases "convert choice w")
  with assms obtain e' where a: "a = Inl e'" and e': "e' = e" "w' = w1"
    "\<not> is_TemperatureConversionError e" "\<not> is_Exception e"
    by (cases a) (auto simp: handle_conversion_def split: if_splits)
  from convert_raises [OF cv [unfolded a]] e' show ?thesis by auto
qed

lemma handle_conversion_pending_empty:
  assumes "handle_conversion (convert choice w) = (r, w1)" and "pending w = []"
  shows "pending w1 = []"
proof -
  obtain a w' where cv: "convert choice w = (a, w')" by (cases "convert choice w")
  from convert_pending [OF cv] assms(2) have "pending w' = []" by simp
  with handle_conversion_pending [of a w' r w1] assms(1) cv show ?thesis by simp
qed

lemma run_loop_endings:
  assumes "run_loop w = (r, w1)"
  shows "(r = Inr () \<and>
            ends_with [Print ''Thank you for using Temperature Converter. Goodbye!''] w1)
         \<or> r = Inl KeyboardInterrupt
         \<or> (r = Inl (SystemExit 1) \<and>
              (ends_with [Log WARNING ''Menu selection interrupted'',
                          Print (CHR 0x0A # ''Operation cancelled.'')] w1
               \<or> ends_with [Log WARNING ''Input interrupted by user'',
                            Print (CHR 0x0A # ''Operation cancelled.'')] w1))
         \<or> (r = Inl EOFError \<and> pending w1 = []
              \<and> ends_with [Prompt ''Enter your choice (1-3): ''] w1)"
  using assms
proof (induction w arbitrary: r w1 rule: run_loop.induct)
  case (1 w)
  obtain a wa where dm: "display_menu w = (a, wa)" by (cases "display_menu w")
  show ?case
  proof (cases a)
    case (Inl e)
    with dm "1.prems" have "r = Inl e" by (simp add: run_loop.simps [of w])
    with display_menu_raises [OF dm [unfolded Inl]] show ?thesis by simp
  next
    case a: (Inr shown)
    obtain b wb where mc: "get_valid_menu_choice wa = (b, wb)"
      by (cases "get_valid_menu_choice wa")
    show ?thesis
    proof (cases b)
      case (Inl e)
      with dm a mc "1.prems" have "r = Inl e" "w1 = wb"
        by (simp_all add: run_loop.simps [of w])
      with get_valid_menu_choice_raises_world [of wa e wb] mc Inl
      show ?thesis by auto
    next
      case b: (Inr choice)
      show ?thesis
      proof (cases "choice = 3")
        case True
        with dm a mc b "1.prems" show ?thesis
          by (auto simp: run_loop.simps [of w])
      next
        case False
        obtain c wc where hc: "handle_conversion (convert choice wb) = (c, wc)"
          by (cases "handle_conversion (convert choice wb)")
        show ?thesis
        proof (cases c)
          case (Inl e)
          with dm a mc b False hc "1.prems" have "r = Inl e" "w1 = wc"
            by (simp_all add: run_loop.simps [of w])
          with handle_conversion_raises [OF hc [unfolded Inl]] show ?thesis by simp
        next
          case c: (Inr handled)
          with dm a mc b False hc "1.prems" have "run_loop wc = (r, w1)"
            by (simp add: run_loop.simps [of w])
          with "1.IH" [OF dm [symmetric] a mc [symmetric] b False hc [symmetric] c]
          show ?thesis by blast
        qed
      qed
    qed
  qed
qed

lemma run_endings:
  assumes "run w = (r, w1)"
  shows "(r = Inr () \<and>
            ends_with [Print ''Thank you for using Temperature Converter. Goodbye!''] w1)
         \<or> (r = Inl (SystemExit 0) \<and>
              ends_with [Print (CHR 0x0A # ''Application terminated by user.'')] w1)
         \<or> (r = Inl (SystemExit 1) \<and>
              (ends_with [Log WARNING ''Menu selection interrupted'',
                          Print (CHR 0x0A # ''Operation cancelled.'')] w1
               \<or> ends_with [Log WARNING ''Input interrupted by user'',
                            Print (CHR 0x0A # ''Operation cancelled.'')] w1))
         \<or> (r = Inl EOFError \<and> pending w1 = []
              \<and> ends_with [Prompt ''Enter your choice (1-3): ''] w1)"
proof -
  obtain a wa where rl: "run_loop w = (a, wa)" by (cases "run_loop w")
  from run_loop_endings [OF rl] assms rl show ?thesis
    by (auto simp: run_def)
qed

text \<open>
  Claim C8. Every run of \<open>main\<close> ends in one of four ways, told apart by what the console
  shows last, each with its exit status: (1) \<open>main\<close> returns after the goodbye message of
  menu choice 3, status 0; (2) \<^verbatim>\<open>KeyboardInterrupt\<close> reached the handler of \<open>run\<close>, which
  printed \<^verbatim>\<open>Application terminated by user.\<close> and called \<^verbatim>\<open>sys.exit(0)\<close>, status 0;
  (3) an interrupt at the menu prompt or at the numeric prompt was caught in the reader,
  which logged a warning, printed \<^verbatim>\<open>Operation cancelled.\<close> and called \<^verbatim>\<open>sys.exit(1)\<close>,
  status 1; (4) an error escaped \<open>run\<close> (the end of the input at the menu prompt) and the
  handler of \<open>main\<close> logged it as critical and called \<^verbatim>\<open>sys.exit(1)\<close>, status 1.
\<close>

theorem exit_status_policy:
  "(fst (main w) = Inr () \<and> exit_status (fst (main w)) = 0 \<and>
      ends_with [Print ''Thank you for using Temperature Converter. Goodbye!''] (snd (main w)))
   \<or> (fst (main w) = Inl (SystemExit 0) \<and> exit_status (fst (main w)) = 0 \<and>
      ends_with [Print (CHR 0x0A # ''Application terminated by user.'')] (snd (main w)))
   \<or> (fst (main w) = Inl (SystemExit 1) \<and> exit_status (fst (main w)) = 1 \<and>
      (ends_with [Log WARNING ''Menu selection interrupted'',
                  Print (CHR 0x0A # ''Operation cancelled.'')] (snd (main w))
       \<or> ends_with [Log WARNING ''Input interrupted by user'',
                    Print (CHR 0x0A # ''Operation cancelled.'')] (snd (main w))))
   \<or> (fst (main w) = Inl (SystemExit 1) \<and> exit_status (fst (main w)) = 1 \<and>
      ends_with [LogExn CRITICAL ''Critical error in application: '' EOFError] (snd (main w)))"
proof -
  obtain a wa where rn: "run w = (a, wa)" by (cases "run w")
  from run_endings [OF rn] rn show ?thesis
    by (auto simp: main_def)
qed

theorem exit_status_policy_witness:
  "(fst (main (start [Line ''3''])) = Inr ()
      \<and> ends_with [Print ''Thank you for using Temperature Converter. Goodbye!'']
           (snd (main (start [Line ''3'']))))
   \<and> (fst (main (start [Line ''2'', Line ''50'', LoopInterrupt])) = Inl (SystemExit 0)
      \<and> ends_with [Print (CHR 0x0A # ''Application terminated by user.'')]
           (snd (main (start [Line ''2'', Line ''50'', LoopInterrupt]))))
   \<and> exit_status (fst (main (start [Line ''x'', Interrupt]))) = 1
   \<and> exit_status (fst (main (start [Line ''1'', Line ''x'', Interrupt]))) = 1
   \<and> (fst (main (start [Line ''1'', Line ''20''])) = Inl (SystemExit 1)
      \<and> ends_with [LogExn CRITICAL ''Critical error in application: '' EOFError]
           (snd (main (start [Line ''1'', Line ''20'']))))"
proof -
  have 1: "fst (main (start [Line ''3''])) = Inr ()" by code_simp
  have 2: "fst (main (start [Line ''2'', Line ''50'', LoopInterrupt])) = Inl (SystemExit 0)"
    by code_simp
  have 3: "fst (main (start [Line ''x'', Interrupt])) = Inl (SystemExit 1)" by code_simp
  have 4: "fst (main (start [Line ''1'', Line ''x'', Interrupt])) = Inl (SystemExit 1)"
    by code_simp
  have 5: "fst (main (start [Line ''1'', Line ''20''])) = Inl (SystemExit 1)" by code_simp
  have 6: "\<not> ends_with [Log WARNING ''Menu selection interrupted'',
                        Print (CHR 0x0A # ''Operation cancelled.'')]
             (snd (main (start [Line ''1'', Line ''20''])))"
    by code_simp
  have 7: "\<not> ends_with [Log WARNING ''Input interrupted by user'',
                        Print (CHR 0x0A # ''Operation cancelled.'')]
             (snd (main (start [Line ''1'', Line ''20''])))"
    by code_simp
  from exit_status_policy [of "start [Line ''3'']"] 1
  have a: "ends_with [Print ''Thank you for using Temperature Converter. Goodbye!'']
            (snd (main (start [Line ''3''])))"
    by simp
  from exit_status_policy [of "start [Line ''2'', Line ''50'', LoopInterrupt]"] 2
  have b: "ends_with [Print (CHR 0x0A # ''Application terminated by user.'')]
            (snd (main (start [Line ''2'', Line ''50'', LoopInterrupt])))"
    by simp
  from exit_status_policy [of "start [Line ''1'', Line ''20'']"] 5 6 7
  have c: "ends_with [LogExn CRITICAL ''Critical error in application: '' EOFError]
            (snd (main (start [Line ''1'', Line ''20''])))"
    by simp
  from 1 2 3 4 5 a b c show ?thesis by simp
qed

section \<open>The shell: scenarios\<close>

text \<open>
  Claim C4. Against the lines \<^verbatim>\<open>1\<close>, \<^verbatim>\<open>25\<close>, \<^verbatim>\<open>3\<close> the shell shows the menu, reads
  the choice and the temperature, prints \<^verbatim>\<open>25.00<degree>C = 77.00<degree>F\<close>, shows the
  menu again, reads the choice 3, prints the goodbye message and returns: \<open>main\<close> returns
  normally and the process ends with status 0.
\<close>

theorem scenario_celsius_25:
  "main (start [Line ''1'', Line ''25'', Line ''3'']) =
     (Inr (),
      \<lparr>pending = [],
       console =
         menu_lines @
         [Prompt ''Enter your choice (1-3): '',
          Prompt ''Enter temperature in Celsius: '',
          Print (''25.00'' @ degree @ ''C = 77.00'' @ degree @ ''F''),
          LogConverted (Finite 25) ''C'' (Finite 77) ''F''] @
         menu_lines @
         [Prompt ''Enter your choice (1-3): '',
          Print ''Thank you for using Temperature Converter. Goodbye!'']\<rparr>)
   \<and> exit_status (fst (main (start [Line ''1'', Line ''25'', Line ''3'']))) = 0"
  by code_simp

text \<open>
  Claim C6. Against the lines \<^verbatim>\<open>abc\<close>, \<^verbatim>\<open>-\<close>, \<^verbatim>\<open>2\<close>, \<^verbatim>\<open>98.6\<close>, \<^verbatim>\<open>3\<close> the
  shell rejects the first two entries at the menu prompt and asks again each time, then
  reads the choice 2 and the temperature, prints \<^verbatim>\<open>98.60<degree>F = 37.00<degree>C\<close>, and
  leaves through the goodbye message with status 0.
\<close>

theorem scenario_recover_then_fahrenheit:
  "main (start [Line ''abc'', Line ''-'', Line ''2'', Line ''98.6'', Line ''3'']) =
     (Inr (),
      \<lparr>pending = [],
       console =
         menu_lines @
         [Prompt ''Enter your choice (1-3): '',
          Print ''Error: Please enter a number between 1 and 3.'',
          Prompt ''Enter your choice (1-3): '',
          Print ''Error: Please enter a number between 1 and 3.'',
          Prompt ''Enter your choice (1-3): '',
          Prompt ''Enter temperature in Fahrenheit: '',
          Print (''98.60'' @ degree @ ''F = 37.00'' @ degree @ ''C''),
          LogConverted (float_literal (986 / 10)) ''F'' (Finite 37) ''C''] @
         menu_lines @
         [Prompt ''Enter your choice (1-3): '',
          Print ''Thank you for using Temperature Converter. Goodbye!'']\<rparr>)
   \<and> exit_status
        (fst (main (start [Line ''abc'', Line ''-'', Line ''2'', Line ''98.6'', Line ''3'']))) = 0"
  by code_simp

end
